theory Spec2Isabelle
  imports Complex_Main "HOL-Library.Sublist"
begin

section \<open>JavaScript values, strings and numbers\<close>

text \<open>
  A JavaScript string is a sequence of UTF-16 code units, and \<open>.length\<close> counts them: a
  string is a list of code units here, and \<open>lit\<close> embeds the literals of the source that
  stay below code unit 256. Numbers are the integers: the application only ever stores
  what \<open>parseInt\<close> returns (and \<open>NaN\<close>, a value of its own). Values read back from storage
  are JSON values.
\<close>

type_synonym code_unit = nat

type_synonym ustring = "code_unit list"

definition lit :: "string \<Rightarrow> ustring" where
  "lit s = map of_char s"

datatype exn = SecurityError | QuotaExceededError | SyntaxError | TypeError

datatype jsval =
    JNull
  | JBool bool
  | JNum int
  | JNaN
  | JStr ustring
  | JArr "jsval list"
  | JObj "(ustring \<times> jsval) list"

text \<open>White space and line terminators of ECMAScript: TAB, LF, VT, FF, CR, SP, NBSP,
  the space separators of Unicode, LS, PS and the byte order mark.\<close>

definition isWhiteSpace :: "code_unit \<Rightarrow> bool" where
  "isWhiteSpace c =
     (c \<in> {0x09, 0x0A, 0x0B, 0x0C, 0x0D, 0x20, 0xA0, 0x1680, 0x2028, 0x2029, 0x202F,
           0x205F, 0x3000, 0xFEFF}
      \<or> (0x2000 \<le> c \<and> c \<le> 0x200A))"

text \<open>\<open>String.prototype.trim\<close>: strips white space at both ends.\<close>

definition trim :: "ustring \<Rightarrow> ustring" where
  "trim s = rev (dropWhile isWhiteSpace (rev (dropWhile isWhiteSpace s)))"

text \<open>\<open>String.prototype.includes\<close>: the argument occurs as a contiguous run.\<close>

definition String_includes :: "ustring \<Rightarrow> ustring \<Rightarrow> bool" where
  "String_includes s p = sublist p s"

text \<open>\<open>String.prototype.repeat\<close>.\<close>

definition String_repeat :: "ustring \<Rightarrow> nat \<Rightarrow> ustring" where
  "String_repeat s n = concat (replicate n s)"

function digits10 :: "nat \<Rightarrow> ustring" where
  "digits10 n = (if n < 10 then [48 + n] else digits10 (n div 10) @ [48 + n mod 10])"
  by pat_completeness auto
termination
  by (relation "measure (\<lambda>n. n)") auto

declare digits10.simps [simp del]

text \<open>\<open>Number::toString\<close> on an integer: its decimal digits, with a sign when negative.\<close>

definition Number_toString :: "int \<Rightarrow> ustring" where
  "Number_toString n = (if n < 0 then 45 # digits10 (nat (- n)) else digits10 (nat n))"

definition isDigit :: "code_unit \<Rightarrow> bool" where
  "isDigit c = (48 \<le> c \<and> c \<le> 57)"

definition digits_value :: "ustring \<Rightarrow> nat" where
  "digits_value ds = foldl (\<lambda>a c. 10 * a + (c - 48)) 0 ds"

text \<open>
  \<open>parseInt(s, 10)\<close>: skips leading white space, reads an optional sign and the longest
  run of decimal digits; \<open>None\<close> is \<open>NaN\<close> (no digit found).
\<close>

definition parseInt :: "ustring \<Rightarrow> int option" where
  "parseInt s =
     (let t = dropWhile isWhiteSpace s;
          neg = (t \<noteq> [] \<and> hd t = 45);
          u = (if t \<noteq> [] \<and> (hd t = 45 \<or> hd t = 43) then tl t else t);
          ds = takeWhile isDigit u
      in if ds = [] then None
         else Some (if neg then - int (digits_value ds) else int (digits_value ds)))"

definition number_val :: "int option \<Rightarrow> jsval" where
  "number_val r = (case r of None \<Rightarrow> JNaN | Some n \<Rightarrow> JNum n)"

text \<open>\<open>ToBoolean\<close>: the falsy values are \<open>null\<close>, \<open>false\<close>, \<open>0\<close>, \<open>NaN\<close> and the empty string.\<close>

fun truthy :: "jsval \<Rightarrow> bool" where
  "truthy JNull = False"
| "truthy (JBool b) = b"
| "truthy (JNum n) = (n \<noteq> 0)"
| "truthy JNaN = False"
| "truthy (JStr s) = (s \<noteq> [])"
| "truthy (JArr xs) = True"
| "truthy (JObj kvs) = True"

text \<open>The operator \<open>a || b\<close>.\<close>

definition js_or :: "jsval \<Rightarrow> jsval \<Rightarrow> jsval" where
  "js_or a b = (if truthy a then a else b)"

definition Boolean_toString :: "bool \<Rightarrow> ustring" where
  "Boolean_toString b = (if b then lit ''true'' else lit ''false'')"

text \<open>\<open>Array.prototype.join\<close> with a comma.\<close>

fun join_comma :: "ustring list \<Rightarrow> ustring" where
  "join_comma [] = []"
| "join_comma [s] = s"
| "join_comma (s # t # ss) = s @ lit '','' @ join_comma (t # ss)"

text \<open>\<open>ToString\<close>, as a template literal applies it; an array joins its elements, with
  \<open>null\<close> elements left empty.\<close>

fun ToString :: "jsval \<Rightarrow> ustring" where
  "ToString JNull = lit ''null''"
| "ToString (JBool b) = Boolean_toString b"
| "ToString (JNum n) = Number_toString n"
| "ToString JNaN = lit ''NaN''"
| "ToString (JStr s) = s"
| "ToString (JArr xs) = join_comma (map (\<lambda>x. if x = JNull then [] else ToString x) xs)"
| "ToString (JObj kvs) = lit ''[object Object]''"

section \<open>The browser's local storage\<close>

text \<open>
  A stored text is represented by what \<open>JSON.parse\<close> makes of it: the value it denotes, or
  nothing when it is not JSON. \<open>JSON.stringify\<close> writes \<open>NaN\<close> as \<open>null\<close>, also inside
  arrays and objects.
\<close>

datatype stored = Serialized jsval | Malformed

fun json_of :: "jsval \<Rightarrow> jsval" where
  "json_of JNaN = JNull"
| "json_of (JArr xs) = JArr (map json_of xs)"
| "json_of (JObj kvs) = JObj (map (\<lambda>(k, v). (k, json_of v)) kvs)"
| "json_of v = v"

definition JSON_stringify :: "jsval \<Rightarrow> stored" where
  "JSON_stringify v = Serialized (json_of v)"

definition JSON_parse :: "stored \<Rightarrow> exn + jsval" where
  "JSON_parse t = (case t of Serialized v \<Rightarrow> Inr v | Malformed \<Rightarrow> Inl SyntaxError)"

text \<open>
  The two failures the storage API has: a disabled storage, where every access to
  \<open>localStorage\<close> throws, and an exhausted quota, where every write throws.
\<close>

record local_storage =
  items :: "ustring \<rightharpoonup> stored"
  disabled :: bool
  full :: bool

text \<open>A computation on a state that returns a value or throws.\<close>

type_synonym ('s, 'a) js = "'s \<Rightarrow> (exn + 'a) \<times> 's"

definition ret :: "'a \<Rightarrow> ('s, 'a) js" where
  "ret x = (\<lambda>s. (Inr x, s))"

definition throw :: "exn \<Rightarrow> ('s, 'a) js" where
  "throw e = (\<lambda>s. (Inl e, s))"

definition lift :: "exn + 'a \<Rightarrow> ('s, 'a) js" where
  "lift r = (\<lambda>s. (r, s))"

definition bind :: "('s, 'a) js \<Rightarrow> ('a \<Rightarrow> ('s, 'b) js) \<Rightarrow> ('s, 'b) js" where
  "bind m f = (\<lambda>s. case m s of (Inl e, s') \<Rightarrow> (Inl e, s') | (Inr x, s') \<Rightarrow> f x s')"

definition try_catch :: "('s, 'a) js \<Rightarrow> (exn \<Rightarrow> ('s, 'a) js) \<Rightarrow> ('s, 'a) js" where
  "try_catch m h = (\<lambda>s. case m s of (Inl e, s') \<Rightarrow> h e s' | (Inr x, s') \<Rightarrow> (Inr x, s'))"

definition getItem :: "ustring \<Rightarrow> (local_storage, stored option) js" where
  "getItem k = (\<lambda>ls. if disabled ls then (Inl SecurityError, ls) else (Inr (items ls k), ls))"

definition setItem :: "ustring \<Rightarrow> stored \<Rightarrow> (local_storage, unit) js" where
  "setItem k t =
     (\<lambda>ls. if disabled ls then (Inl SecurityError, ls)
           else if full ls then (Inl QuotaExceededError, ls)
           else (Inr (), ls\<lparr>items := (items ls)(k \<mapsto> t)\<rparr>))"

definition removeItem :: "ustring \<Rightarrow> (local_storage, unit) js" where
  "removeItem k =
     (\<lambda>ls. if disabled ls then (Inl SecurityError, ls)
           else (Inr (), ls\<lparr>items := (items ls)(k := None)\<rparr>))"

section \<open>storage.js\<close>

definition STORAGE_PREFIX :: ustring where
  "STORAGE_PREFIX = lit ''conscience_inquiry_''"

text \<open>The \<open>console.warn\<close> of the three handlers is not part of the state.\<close>

definition saveToStorage :: "ustring \<Rightarrow> jsval \<Rightarrow> (local_storage, bool) js" where
  "saveToStorage key val =
     try_catch
       (let prefixedKey = STORAGE_PREFIX @ key;
            serialized = JSON_stringify val
        in bind (setItem prefixedKey serialized) (\<lambda>_. ret True))
       (\<lambda>e. ret False)"

definition loadFromStorage :: "ustring \<Rightarrow> jsval \<Rightarrow> (local_storage, jsval) js" where
  "loadFromStorage key defaultValue =
     try_catch
       (let prefixedKey = STORAGE_PREFIX @ key
        in bind (getItem prefixedKey) (\<lambda>serialized.
             case serialized of
               None \<Rightarrow> ret defaultValue
             | Some t \<Rightarrow> lift (JSON_parse t)))
       (\<lambda>e. ret defaultValue)"

definition removeFromStorage :: "ustring \<Rightarrow> (local_storage, bool) js" where
  "removeFromStorage key =
     try_catch
       (let prefixedKey = STORAGE_PREFIX @ key
        in bind (removeItem prefixedKey) (\<lambda>_. ret True))
       (\<lambda>e. ret False)"

record responses =
  initialSlider :: jsval
  initialReason :: jsval
  biologyReflection :: jsval
  infantsReflection :: jsval
  traumaReflection :: jsval
  familyReflection :: jsval
  starvationReflection :: jsval
  philosophyReflection :: jsval
  synthesisStatement :: jsval
  finalSlider :: jsval
  completedPages :: jsval

definition getAllResponses :: "(local_storage, responses) js" where
  "getAllResponses =
     bind (loadFromStorage (lit ''initial_slider'') (JNum 50)) (\<lambda>v1.
     bind (loadFromStorage (lit ''initial_reason'') (JStr [])) (\<lambda>v2.
     bind (loadFromStorage (lit ''biology_reflection'') (JStr [])) (\<lambda>v3.
     bind (loadFromStorage (lit ''infants_reflection'') (JStr [])) (\<lambda>v4.
     bind (loadFromStorage (lit ''trauma_reflection'') (JStr [])) (\<lambda>v5.
     bind (loadFromStorage (lit ''family_reflection'') (JStr [])) (\<lambda>v6.
     bind (loadFromStorage (lit ''starvation_reflection'') (JStr [])) (\<lambda>v7.
     bind (loadFromStorage (lit ''philosophy_reflection'') (JStr [])) (\<lambda>v8.
     bind (loadFromStorage (lit ''synthesis_statement'') (JStr [])) (\<lambda>v9.
     bind (loadFromStorage (lit ''final_slider'') JNull) (\<lambda>v10.
     bind (loadFromStorage (lit ''completed_pages'') (JArr [])) (\<lambda>v11.
     ret \<lparr> initialSlider = v1, initialReason = v2, biologyReflection = v3,
           infantsReflection = v4, traumaReflection = v5, familyReflection = v6,
           starvationReflection = v7, philosophyReflection = v8,
           synthesisStatement = v9, finalSlider = v10, completedPages = v11 \<rparr>)))))))))))"

text \<open>
  \<open>completed.includes(pageName)\<close> on whatever was loaded: membership in an array, a
  substring test on a string, and a \<open>TypeError\<close> on anything else, which has no such method.
\<close>

fun includes_method :: "jsval \<Rightarrow> ustring \<Rightarrow> exn + bool" where
  "includes_method (JArr xs) p = Inr (JStr p \<in> set xs)"
| "includes_method (JStr s) p = Inr (String_includes s p)"
| "includes_method _ p = Inl TypeError"

text \<open>\<open>completed.push(pageName)\<close>: only an array has the method.\<close>

fun push_method :: "jsval \<Rightarrow> ustring \<Rightarrow> exn + jsval" where
  "push_method (JArr xs) p = Inr (JArr (xs @ [JStr p]))"
| "push_method _ p = Inl TypeError"

definition markPageCompleted :: "ustring \<Rightarrow> (local_storage, unit) js" where
  "markPageCompleted pageName =
     bind (loadFromStorage (lit ''completed_pages'') (JArr [])) (\<lambda>completed.
     bind (lift (includes_method completed pageName)) (\<lambda>found.
       if \<not> found then
         bind (lift (push_method completed pageName)) (\<lambda>completed'.
         bind (saveToStorage (lit ''completed_pages'') completed') (\<lambda>_. ret ()))
       else ret ()))"

definition isPageCompleted :: "ustring \<Rightarrow> (local_storage, bool) js" where
  "isPageCompleted pageName =
     bind (loadFromStorage (lit ''completed_pages'') (JArr [])) (\<lambda>completed.
       lift (includes_method completed pageName))"

definition allPages :: "ustring list" where
  "allPages = [(lit ''index''), (lit ''biology''), (lit ''infants''), (lit ''trauma''), (lit ''family''),
               (lit ''starvation''), (lit ''philosophy''), (lit ''synthesis'')]"

text \<open>\<open>Array.prototype.filter\<close> with a callback that may throw.\<close>

fun filter_js :: "('a \<Rightarrow> exn + bool) \<Rightarrow> 'a list \<Rightarrow> exn + 'a list" where
  "filter_js f [] = Inr []"
| "filter_js f (x # xs) =
     (case f x of
        Inl e \<Rightarrow> Inl e
      | Inr b \<Rightarrow> (case filter_js f xs of
                    Inl e \<Rightarrow> Inl e
                  | Inr ys \<Rightarrow> Inr (if b then x # ys else ys)))"

text \<open>\<open>Math.round\<close>: the nearest integer, a half rounding up. The quotients below are
  multiples of an eighth, which the source's floating point represents exactly.\<close>

definition Math_round :: "rat \<Rightarrow> int" where
  "Math_round q = \<lfloor>q + 1 / 2\<rfloor>"

definition getProgressPercentage :: "(local_storage, int) js" where
  "getProgressPercentage =
     bind (loadFromStorage (lit ''completed_pages'') (JArr [])) (\<lambda>completed.
     bind (lift (filter_js (\<lambda>p. includes_method completed p) allPages)) (\<lambda>hits.
       let completedCount = length hits
       in ret (Math_round ((of_nat completedCount / of_nat (length allPages)) * 100))))"

section \<open>interactions.js\<close>

subsection \<open>Reveal blocks\<close>

text \<open>
  One trigger with the content it controls: the trigger's \<open>aria-expanded\<close> attribute and
  the content's \<open>aria-hidden\<close> attribute, both strings, as \<open>setAttribute\<close> stores them
  (a boolean argument is stored as its text).
\<close>

record reveal =
  aria_expanded :: ustring
  aria_hidden :: ustring

definition reveal_init :: "reveal \<Rightarrow> reveal" where
  "reveal_init r = r\<lparr>aria_expanded := lit ''false'', aria_hidden := lit ''true''\<rparr>"

definition reveal_click :: "reveal \<Rightarrow> reveal" where
  "reveal_click r =
     (let isExpanded = (aria_expanded r = lit ''true'')
      in r\<lparr>aria_expanded := Boolean_toString (\<not> isExpanded),
           aria_hidden := Boolean_toString isExpanded\<rparr>)"

text \<open>The states a pair goes through: initialisation, then any number of clicks.\<close>

inductive reveal_reachable :: "reveal \<Rightarrow> reveal \<Rightarrow> bool" where
  reach_init: "reveal_reachable r0 (reveal_init r0)"
| reach_click: "reveal_reachable r0 r \<Longrightarrow> reveal_reachable r0 (reveal_click r)"

definition expanded :: "reveal \<Rightarrow> bool" where
  "expanded r = (aria_expanded r = lit ''true'')"

definition hidden :: "reveal \<Rightarrow> bool" where
  "hidden r = (aria_hidden r = lit ''true'')"

text \<open>The specification's own reading of a pair, as two flags (expanded, hidden).\<close>

definition spec_reveal_init :: "bool \<times> bool" where
  "spec_reveal_init = (False, True)"

definition spec_reveal_click :: "bool \<times> bool \<Rightarrow> bool \<times> bool" where
  "spec_reveal_click s = (case s of (e, h) \<Rightarrow> (\<not> e, e))"

subsection \<open>Slider label\<close>

definition formatConscienceSlider :: "int \<Rightarrow> ustring" where
  "formatConscienceSlider v =
     (let innatePercent = v;
          constructedPercent = 100 - v
      in if v = 50 then lit ''Exactly balanced''
         else if v < 50 then Number_toString constructedPercent @ lit ''% Constructed''
         else Number_toString innatePercent @ lit ''% Innate'')"

text \<open>
  The same function on a value read from storage, which need not be a number. \<open>null\<close> and
  the booleans coerce to 0 and 1, \<open>NaN\<close> and an object fail both comparisons and are
  printed as they are. The coercion of a string or of an array to a number can give a
  fraction, which the integers here do not have: there the result is \<open>None\<close>.
\<close>

fun formatConscienceSlider_any :: "jsval \<Rightarrow> ustring option" where
  "formatConscienceSlider_any (JNum n) = Some (formatConscienceSlider n)"
| "formatConscienceSlider_any JNull = Some (formatConscienceSlider 0)"
| "formatConscienceSlider_any (JBool b) = Some (formatConscienceSlider (if b then 1 else 0))"
| "formatConscienceSlider_any JNaN = Some (ToString JNaN @ lit ''% Innate'')"
| "formatConscienceSlider_any (JObj kvs) = Some (ToString (JObj kvs) @ lit ''% Innate'')"
| "formatConscienceSlider_any (JStr s) = None"
| "formatConscienceSlider_any (JArr xs) = None"

subsection \<open>Character counter\<close>

record counter =
  textContent :: ustring
  color :: ustring

definition updateCounter :: "int \<Rightarrow> int \<Rightarrow> ustring \<Rightarrow> counter \<Rightarrow> counter" where
  "updateCounter minChars maxChars val c =
     (let len = int (length val)
      in c\<lparr>textContent :=
             Number_toString len @ lit '' / '' @ Number_toString maxChars @ lit '' characters'',
           color :=
             (if len < minChars then lit ''var(--color-text-muted)''
              else if len \<le> maxChars then lit ''var(--color-success)''
              else lit ''var(--color-warning)'')\<rparr>)"

text \<open>
  \<open>initCharCounter\<close>: the text area's value and the counter element, each absent when the
  page has no such element; the two thresholds default to 100 and 500. It runs
  \<open>updateCounter\<close> once, and registers it for every later input event.
\<close>

definition initCharCounter ::
  "ustring option \<Rightarrow> counter option \<Rightarrow> int option \<Rightarrow> int option \<Rightarrow> counter option" where
  "initCharCounter textarea cnt minArg maxArg =
     (let minChars = (case minArg of None \<Rightarrow> 100 | Some m \<Rightarrow> m);
          maxChars = (case maxArg of None \<Rightarrow> 500 | Some m \<Rightarrow> m)
      in case (textarea, cnt) of
           (Some val, Some c) \<Rightarrow> Some (updateCounter minChars maxChars val c)
         | _ \<Rightarrow> cnt)"

subsection \<open>Confirmation toast\<close>

datatype timer_action = RemoveToast | Navigate ustring

record page =
  storage :: local_storage
  synthesisTextarea :: "ustring option"
  finalSliderInput :: "ustring option"
  toast :: "(ustring \<times> ustring) option"
  toastStyles :: bool
  timers :: "(nat \<times> timer_action) list"
  defaultPrevented :: bool
  downloads :: "(ustring \<times> ustring) list"

text \<open>The toast is kept as its message and its type; a timer as its delay and what it does.\<close>

definition showConfirmation :: "ustring \<Rightarrow> ustring \<Rightarrow> page \<Rightarrow> page" where
  "showConfirmation message type p =
     p\<lparr>toast := Some (message, type),
       toastStyles := True,
       timers := timers p @ [(3000, RemoveToast)]\<rparr>"

section \<open>synthesis.js\<close>

text \<open>A storage operation run from a page.\<close>

definition on_storage :: "(local_storage, 'a) js \<Rightarrow> (page, 'a) js" where
  "on_storage m = (\<lambda>p. case m (storage p) of (r, ls) \<Rightarrow> (r, p\<lparr>storage := ls\<rparr>))"

definition setTimeout :: "timer_action \<Rightarrow> nat \<Rightarrow> page \<Rightarrow> page" where
  "setTimeout act delay p = p\<lparr>timers := timers p @ [(delay, act)]\<rparr>"

text \<open>The submit listener of \<open>initSynthesisForm\<close>.\<close>

definition submit_handler :: "(page, unit) js" where
  "submit_handler =
     (\<lambda>p0.
        let p = p0\<lparr>defaultPrevented := True\<rparr>;
            synthesisValue = (case synthesisTextarea p of Some v \<Rightarrow> trim v | None \<Rightarrow> []);
            sliderValue = (case finalSliderInput p of
                             Some v \<Rightarrow> number_val (parseInt v)
                           | None \<Rightarrow> JNum 50)
        in if length synthesisValue < 100 then
             (Inr (), showConfirmation
                        (lit ''Please write at least 100 characters for your synthesis.'')
                        (lit ''info'') p)
           else
             bind (on_storage (saveToStorage (lit ''synthesis_statement'') (JStr synthesisValue)))
               (\<lambda>_.
             bind (on_storage (saveToStorage (lit ''final_slider'') sliderValue)) (\<lambda>_.
             bind (on_storage (markPageCompleted (lit ''synthesis''))) (\<lambda>_.
               (\<lambda>q. (Inr (),
                      setTimeout (Navigate (lit ''conclusion.html'')) 1500
                        (showConfirmation (lit ''Synthesis saved. Proceeding to conclusion...'')
                           (lit ''success'') q)))))) p)"

text \<open>\<open>response.trim()\<close>: only a string has the method.\<close>

fun trim_method :: "jsval \<Rightarrow> exn + ustring" where
  "trim_method (JStr s) = Inr (trim s)"
| "trim_method _ = Inl TypeError"

definition pillars :: "((responses \<Rightarrow> jsval) \<times> ustring) list" where
  "pillars =
     [(biologyReflection, lit ''The Social Brain''),
      (infantsReflection, lit ''Infant Fairness''),
      (traumaReflection, lit ''Epigenetic Trauma''),
      (familyReflection, lit ''Family & Morality''),
      (starvationReflection, lit ''Starvation Study''),
      (philosophyReflection, lit ''Philosophy'')]"

text \<open>One round of the \<open>forEach\<close> of \<open>exportSynthesis\<close>, on the text so far.\<close>

definition pillar_step ::
  "responses \<Rightarrow> ustring \<Rightarrow> (responses \<Rightarrow> jsval) \<times> ustring \<Rightarrow> exn + ustring" where
  "pillar_step rs text pillar =
     (let response = fst pillar rs
      in if truthy response then
           (case trim_method response of
              Inl e \<Rightarrow> Inl e
            | Inr t \<Rightarrow>
                if t \<noteq> [] then
                  Inr (text @ [0x0A] @ snd pillar @ lit '':'' @ [0x0A] @ ToString response @ [0x0A])
                else Inr text)
         else Inr text)"

fun forEach_pillars ::
  "responses \<Rightarrow> ustring \<Rightarrow> ((responses \<Rightarrow> jsval) \<times> ustring) list \<Rightarrow> exn + ustring" where
  "forEach_pillars rs text [] = Inr text"
| "forEach_pillars rs text (pl # pls) =
     (case pillar_step rs text pl of
        Inl e \<Rightarrow> Inl e
      | Inr text' \<Rightarrow> forEach_pillars rs text' pls)"

text \<open>
  The document \<open>exportSynthesis\<close> assembles, up to the reflections: \<open>today\<close> is what
  \<open>new Date().toLocaleDateString()\<close> returns. \<open>None\<close> when a slider value is one whose
  label is outside the model.
\<close>

definition export_header :: "ustring \<Rightarrow> responses \<Rightarrow> ustring option" where
  "export_header today rs =
     (case formatConscienceSlider_any (initialSlider rs) of
        None \<Rightarrow> None
      | Some initialLabel \<Rightarrow>
     (case formatConscienceSlider_any (js_or (finalSlider rs) (JNum 50)) of
        None \<Rightarrow> None
      | Some finalLabel \<Rightarrow>
          Some (lit ''CONSCIENCE INQUIRY '' @ [0x2014] @ lit '' PERSONAL SYNTHESIS'' @ [0x0A]
            @ String_repeat (lit ''='') 50 @ [0x0A, 0x0A]
            @ lit ''Date: '' @ today @ [0x0A, 0x0A]
            @ lit ''INITIAL POSITION'' @ [0x0A]
            @ String_repeat (lit ''-'') 30 @ [0x0A]
            @ lit ''Slider: '' @ initialLabel @ [0x0A]
            @ lit ''Reasoning: ''
            @ ToString (js_or (initialReason rs) (JStr (lit ''Not recorded''))) @ [0x0A, 0x0A]
            @ lit ''FINAL POSITION'' @ [0x0A]
            @ String_repeat (lit ''-'') 30 @ [0x0A]
            @ lit ''Slider: '' @ finalLabel @ [0x0A]
            @ lit ''Synthesis: ''
            @ ToString (js_or (synthesisStatement rs) (JStr (lit ''Not recorded'')))
            @ [0x0A, 0x0A]
            @ lit ''JOURNEY REFLECTIONS'' @ [0x0A]
            @ String_repeat (lit ''-'') 30 @ [0x0A])))"

definition export_text :: "ustring \<Rightarrow> responses \<Rightarrow> (exn + ustring) option" where
  "export_text today rs =
     (case export_header today rs of
        None \<Rightarrow> None
      | Some text \<Rightarrow> Some (forEach_pillars rs text pillars))"

text \<open>
  \<open>exportSynthesis\<close>: reads the responses, assembles the text, hands it to the browser as
  the download \<open>conscience-inquiry-synthesis.txt\<close> and shows a confirmation.
\<close>

definition exportSynthesis :: "ustring \<Rightarrow> page \<Rightarrow> ((exn + unit) \<times> page) option" where
  "exportSynthesis today p =
     (case getAllResponses (storage p) of
        (Inl e, ls) \<Rightarrow> Some (Inl e, p\<lparr>storage := ls\<rparr>)
      | (Inr rs, ls) \<Rightarrow>
          (case export_text today rs of
             None \<Rightarrow> None
           | Some (Inl e) \<Rightarrow> Some (Inl e, p\<lparr>storage := ls\<rparr>)
           | Some (Inr text) \<Rightarrow>
               Some (Inr (),
                     showConfirmation (lit ''Synthesis exported successfully.'') (lit ''success'')
                       (p\<lparr>storage := ls,
                          downloads := downloads p
                            @ [(lit ''conscience-inquiry-synthesis.txt'', text)]\<rparr>))))"

section \<open>Auxiliary notions for the properties\<close>

text \<open>Whether a computation throws in a state.\<close>

definition throws :: "('s, 'a) js \<Rightarrow> 's \<Rightarrow> bool" where
  "throws m s = isl (fst (m s))"

text \<open>Two calls of \<open>markPageCompleted\<close> in succession.\<close>

definition mark_twice :: "ustring \<Rightarrow> (local_storage, unit) js" where
  "mark_twice pageName = bind (markPageCompleted pageName) (\<lambda>_. markPageCompleted pageName)"

text \<open>A working storage that holds a completed-pages list and nothing else.\<close>

definition stored_pages :: "ustring list \<Rightarrow> local_storage" where
  "stored_pages L =
     \<lparr>items = [STORAGE_PREFIX @ lit ''completed_pages'' \<mapsto> Serialized (JArr (map JStr L))],
      disabled = False, full = False\<rparr>"

text \<open>The page after a rejected submission, and after an accepted one that left the
  storage \<open>ls\<close>.\<close>

definition rejected :: "page \<Rightarrow> page" where
  "rejected p =
     p\<lparr>defaultPrevented := True,
       toast := Some (lit ''Please write at least 100 characters for your synthesis.'',
                      lit ''info''),
       toastStyles := True,
       timers := timers p @ [(3000, RemoveToast)]\<rparr>"

definition accepted :: "local_storage \<Rightarrow> page \<Rightarrow> page" where
  "accepted ls p =
     p\<lparr>defaultPrevented := True,
       storage := ls,
       toast := Some (lit ''Synthesis saved. Proceeding to conclusion...'', lit ''success''),
       toastStyles := True,
       timers := timers p @ [(3000, RemoveToast), (1500, Navigate (lit ''conclusion.html''))]\<rparr>"

text \<open>The slider value the submit listener reads.\<close>

definition sliderValue_of :: "page \<Rightarrow> jsval" where
  "sliderValue_of p =
     (case finalSliderInput p of Some v \<Rightarrow> number_val (parseInt v) | None \<Rightarrow> JNum 50)"

text \<open>A synthesis page over a working storage, with the text \<open>s\<close> typed in.\<close>

definition example_page :: "ustring \<Rightarrow> page" where
  "example_page s =
     \<lparr>storage = stored_pages [lit ''index''],
      synthesisTextarea = Some s,
      finalSliderInput = Some (lit ''70''),
      toast = None, toastStyles = False, timers = [], defaultPrevented = False,
      downloads = []\<rparr>"

text \<open>The same page over a storage whose quota is exhausted and that holds an earlier
  draft of the synthesis.\<close>

definition full_page :: "ustring \<Rightarrow> page" where
  "full_page s =
     (example_page s)\<lparr>storage :=
        \<lparr>items = [STORAGE_PREFIX @ lit ''synthesis_statement'' \<mapsto> Serialized (JStr (lit ''draft''))],
         disabled = False, full = True\<rparr>\<rparr>"

text \<open>The storage part of an accepted submission.\<close>

definition submit_storage :: "ustring \<Rightarrow> jsval \<Rightarrow> (local_storage, unit) js" where
  "submit_storage synthesisValue sliderValue =
     bind (saveToStorage (lit ''synthesis_statement'') (JStr synthesisValue)) (\<lambda>_.
     bind (saveToStorage (lit ''final_slider'') sliderValue) (\<lambda>_.
       markPageCompleted (lit ''synthesis'')))"

text \<open>What one topic contributes to the exported document.\<close>

definition reflection_section :: "ustring \<Rightarrow> jsval \<Rightarrow> ustring" where
  "reflection_section name v =
     (case v of
        JStr txt \<Rightarrow> if trim txt \<noteq> [] then [0x0A] @ name @ lit '':'' @ [0x0A] @ txt @ [0x0A] else []
      | _ \<Rightarrow> [])"

text \<open>The synthesis page with a text of a hundred letters and the final slider at 0.\<close>

definition zero_slider_page :: page where
  "zero_slider_page = (example_page (replicate 100 97))\<lparr>finalSliderInput := Some (lit ''0'')\<rparr>"

text \<open>A page whose storage holds a final slider left at 0, the responses read from it,
  and the document exported from it on 11/3/2026.\<close>

definition final_zero_page :: page where
  "final_zero_page =
     \<lparr>storage =
        \<lparr>items = [STORAGE_PREFIX @ lit ''initial_slider'' \<mapsto> Serialized (JNum 30),
                  STORAGE_PREFIX @ lit ''biology_reflection'' \<mapsto>
                    Serialized (JStr (lit ''Mirror neurons'')),
                  STORAGE_PREFIX @ lit ''trauma_reflection'' \<mapsto> Serialized (JStr (lit ''   '')),
                  STORAGE_PREFIX @ lit ''final_slider'' \<mapsto> Serialized (JNum 0)],
         disabled = False, full = False\<rparr>,
      synthesisTextarea = None, finalSliderInput = None,
      toast = None, toastStyles = False, timers = [], defaultPrevented = False,
      downloads = []\<rparr>"

definition final_zero_responses :: responses where
  "final_zero_responses =
     \<lparr> initialSlider = JNum 30, initialReason = JStr [],
       biologyReflection = JStr (lit ''Mirror neurons''), infantsReflection = JStr [],
       traumaReflection = JStr (lit ''   ''), familyReflection = JStr [],
       starvationReflection = JStr [], philosophyReflection = JStr [],
       synthesisStatement = JStr [], finalSlider = JNum 0, completedPages = JArr [] \<rparr>"

definition final_zero_text :: ustring where
  "final_zero_text =
     lit ''CONSCIENCE INQUIRY '' @ [0x2014] @ lit '' PERSONAL SYNTHESIS'' @ [0x0A]
     @ lit ''=================================================='' @ [0x0A, 0x0A]
     @ lit ''Date: 11/3/2026'' @ [0x0A, 0x0A]
     @ lit ''INITIAL POSITION'' @ [0x0A]
     @ lit ''------------------------------'' @ [0x0A]
     @ lit ''Slider: 70% Constructed'' @ [0x0A]
     @ lit ''Reasoning: Not recorded'' @ [0x0A, 0x0A]
     @ lit ''FINAL POSITION'' @ [0x0A]
     @ lit ''------------------------------'' @ [0x0A]
     @ lit ''Slider: Exactly balanced'' @ [0x0A]
     @ lit ''Synthesis: Not recorded'' @ [0x0A, 0x0A]
     @ lit ''JOURNEY REFLECTIONS'' @ [0x0A]
     @ lit ''------------------------------'' @ [0x0A]
     @ [0x0A] @ lit ''The Social Brain:'' @ [0x0A] @ lit ''Mirror neurons'' @ [0x0A]"

section \<open>Basic facts\<close>

lemma lit_eq_iff [simp]: "lit a = lit b \<longleftrightarrow> a = b"
  unfolding lit_def by (simp add: inj_map_eq_map inj_on_def)

lemma lit_Nil [simp]: "lit [] = []"
  by (simp add: lit_def)

lemma length_lit [simp]: "length (lit a) = length a"
  by (simp add: lit_def)

lemma saveToStorage_eq:
  "saveToStorage key val ls =
     (if disabled ls \<or> full ls then (Inr False, ls)
      else (Inr True, ls\<lparr>items := (items ls)(STORAGE_PREFIX @ key \<mapsto> JSON_stringify val)\<rparr>))"
  by (simp add: saveToStorage_def try_catch_def bind_def ret_def setItem_def)

lemma removeFromStorage_eq:
  "removeFromStorage key ls =
     (if disabled ls then (Inr False, ls)
      else (Inr True, ls\<lparr>items := (items ls)(STORAGE_PREFIX @ key := None)\<rparr>))"
  by (simp add: removeFromStorage_def try_catch_def bind_def ret_def removeItem_def)

lemma loadFromStorage_eq:
  "loadFromStorage key d ls =
     (Inr (if disabled ls then d
           else case items ls (STORAGE_PREFIX @ key) of
                  None \<Rightarrow> d
                | Some Malformed \<Rightarrow> d
                | Some (Serialized v) \<Rightarrow> v), ls)"
  by (simp add: loadFromStorage_def try_catch_def bind_def ret_def lift_def getItem_def
      JSON_parse_def split: option.splits stored.splits)

section \<open>Storage accessors\<close>

text \<open>
  C7: \<open>saveToStorage\<close>, \<open>loadFromStorage\<close> and \<open>removeFromStorage\<close> never raise to the
  caller. Each returns a value in every state; \<open>saveToStorage\<close> and \<open>removeFromStorage\<close>
  return \<open>false\<close> when the underlying \<open>setItem\<close> or \<open>removeItem\<close> throws and \<open>true\<close>
  when it succeeds, leaving the storage as that operation left it; \<open>loadFromStorage\<close>
  returns its default when \<open>getItem\<close> throws, when the key is absent and when the stored
  text does not parse, and the parsed value otherwise, and leaves the storage as it was.
\<close>

theorem storage_never_raises:
  "saveToStorage key val ls =
     (Inr (\<not> throws (setItem (STORAGE_PREFIX @ key) (JSON_stringify val)) ls),
      snd (setItem (STORAGE_PREFIX @ key) (JSON_stringify val) ls))
   \<and> removeFromStorage key ls =
     (Inr (\<not> throws (removeItem (STORAGE_PREFIX @ key)) ls),
      snd (removeItem (STORAGE_PREFIX @ key) ls))
   \<and> loadFromStorage key d ls =
     (Inr (if throws (getItem (STORAGE_PREFIX @ key)) ls then d
           else case items ls (STORAGE_PREFIX @ key) of
                  None \<Rightarrow> d
                | Some t \<Rightarrow> (case JSON_parse t of Inl e \<Rightarrow> d | Inr v \<Rightarrow> v)), ls)"
  by (simp add: saveToStorage_eq removeFromStorage_eq loadFromStorage_eq throws_def
      setItem_def removeItem_def getItem_def JSON_parse_def split: option.splits stored.splits)

text \<open>
  C10: when the storage holds no key of the application, \<open>getAllResponses\<close> returns the
  defaults: 50 for the initial slider, \<open>null\<close> for the final slider, the empty list of
  completed pages and the empty string for every text field.
\<close>

theorem getAllResponses_defaults:
  assumes "\<forall>key. items ls (STORAGE_PREFIX @ key) = None"
  shows "getAllResponses ls =
     (Inr \<lparr> initialSlider = JNum 50, initialReason = JStr [], biologyReflection = JStr [],
            infantsReflection = JStr [], traumaReflection = JStr [], familyReflection = JStr [],
            starvationReflection = JStr [], philosophyReflection = JStr [],
            synthesisStatement = JStr [], finalSlider = JNull, completedPages = JArr [] \<rparr>, ls)"
  using assms by (simp add: getAllResponses_def bind_def ret_def loadFromStorage_eq)

text \<open>A storage that holds only a key of some other application.\<close>

theorem getAllResponses_defaults_witness:
  "(\<forall>key. items \<lparr>items = [lit ''theme'' \<mapsto> Malformed], disabled = False, full = False\<rparr>
            (STORAGE_PREFIX @ key) = None)
   \<and> fst (getAllResponses \<lparr>items = [lit ''theme'' \<mapsto> Malformed], disabled = False, full = False\<rparr>) =
     Inr \<lparr> initialSlider = JNum 50, initialReason = JStr [], biologyReflection = JStr [],
            infantsReflection = JStr [], traumaReflection = JStr [], familyReflection = JStr [],
            starvationReflection = JStr [], philosophyReflection = JStr [],
            synthesisStatement = JStr [], finalSlider = JNull, completedPages = JArr [] \<rparr>"
proof -
  have h: "\<forall>key. items \<lparr>items = [lit ''theme'' \<mapsto> Malformed], disabled = False, full = False\<rparr>
            (STORAGE_PREFIX @ key) = None"
    by (simp add: STORAGE_PREFIX_def lit_def)
  from getAllResponses_defaults [OF h] h show ?thesis by simp
qed

section \<open>Progress\<close>

lemma filter_js_pure:
  "(\<And>x. x \<in> set xs \<Longrightarrow> f x = Inr (g x)) \<Longrightarrow> filter_js f xs = Inr (filter g xs)"
  by (induction xs) auto

lemma distinct_allPages: "distinct allPages"
  by (simp add: allPages_def)

lemma length_allPages: "length allPages = 8"
  by (simp add: allPages_def)

lemma Math_round_eq: "Math_round q = round q"
  by (simp add: Math_round_def round_def)

lemma getProgressPercentage_list:
  assumes "fst (loadFromStorage (lit ''completed_pages'') (JArr []) ls) = Inr (JArr xs)"
  shows "getProgressPercentage ls =
     (Inr (Math_round (of_nat (length (filter (\<lambda>p. JStr p \<in> set xs) allPages)) / 8 * 100)), ls)"
proof -
  have l: "loadFromStorage (lit ''completed_pages'') (JArr []) ls = (Inr (JArr xs), ls)"
    using assms by (simp add: loadFromStorage_eq)
  have f: "filter_js (\<lambda>p. includes_method (JArr xs) p) allPages =
           Inr (filter (\<lambda>p. JStr p \<in> set xs) allPages)"
    by (rule filter_js_pure) simp
  show ?thesis
    by (simp add: getProgressPercentage_def bind_def l f lift_def ret_def length_allPages)
qed

lemma count_hits:
  "length (filter (\<lambda>p. JStr p \<in> set (map JStr L)) allPages) = card (set allPages \<inter> set L)"
proof -
  have "filter (\<lambda>p. JStr p \<in> set (map JStr L)) allPages = filter (\<lambda>p. p \<in> set L) allPages"
    by (rule filter_cong) auto
  moreover have "length (filter (\<lambda>p. p \<in> set L) allPages) = card ({p. p \<in> set L} \<inter> set allPages)"
    using distinct_allPages by (rule distinct_length_filter)
  moreover have "{p. p \<in> set L} \<inter> set allPages = set allPages \<inter> set L"
    by auto
  ultimately show ?thesis by (simp only:)
qed

text \<open>
  C2: when the stored completed-pages list is \<open>L\<close>, \<open>getProgressPercentage\<close> returns
  \<open>round (100 * c / 8)\<close>, where \<open>c\<close> is the number of the eight page names that occur in
  \<open>L\<close>: other names and repetitions in \<open>L\<close> do not count. It is 0 when none of the eight
  occurs and 100 when all of them do.
\<close>

theorem getProgressPercentage_round:
  assumes "fst (loadFromStorage (lit ''completed_pages'') (JArr []) ls) = Inr (JArr (map JStr L))"
  shows "getProgressPercentage ls =
           (Inr (round (100 * of_nat (card (set allPages \<inter> set L)) / 8 :: rat)), ls)
         \<and> (set allPages \<inter> set L = {} \<longrightarrow> fst (getProgressPercentage ls) = Inr 0)
         \<and> (set allPages \<subseteq> set L \<longrightarrow> fst (getProgressPercentage ls) = Inr 100)"
proof -
  have eq: "getProgressPercentage ls =
           (Inr (round (100 * of_nat (card (set allPages \<inter> set L)) / 8 :: rat)), ls)"
    using getProgressPercentage_list [OF assms]
    unfolding count_hits Math_round_eq by (simp add: algebra_simps)
  have zero: "fst (getProgressPercentage ls) = Inr 0" if "set allPages \<inter> set L = {}"
    using eq that by simp
  have "card (set allPages \<inter> set L) = 8" if "set allPages \<subseteq> set L"
  proof -
    have "set allPages \<inter> set L = set allPages" using that by auto
    then show ?thesis
      using distinct_card [OF distinct_allPages] by (simp add: length_allPages)
  qed
  then have full: "fst (getProgressPercentage ls) = Inr 100" if "set allPages \<subseteq> set L"
    using eq that by simp
  from eq zero full show ?thesis by blast
qed

text \<open>Three stored lists: three of the eight names with a repetition and a foreign
  name, no name of the eight, and all eight with a repetition.\<close>

theorem getProgressPercentage_round_witness:
  "fst (getProgressPercentage
         (stored_pages [lit ''index'', lit ''biology'', lit ''index'', lit ''bogus'', lit ''trauma'']))
     = Inr 38
   \<and> fst (getProgressPercentage (stored_pages [lit ''bogus''])) = Inr 0
   \<and> fst (getProgressPercentage (stored_pages (lit ''synthesis'' # allPages))) = Inr 100"
proof -
  have h: "fst (loadFromStorage (lit ''completed_pages'') (JArr []) (stored_pages L))
     = Inr (JArr (map JStr L))" for L
    by (simp add: loadFromStorage_eq stored_pages_def)
  have c: "card (set allPages \<inter>
       set [lit ''index'', lit ''biology'', lit ''index'', lit ''bogus'', lit ''trauma'']) = 3"
    by code_simp
  have r: "round (100 * of_nat 3 / 8 :: rat) = 38"
    by code_simp
  have "getProgressPercentage
         (stored_pages [lit ''index'', lit ''biology'', lit ''index'', lit ''bogus'', lit ''trauma''])
     = (Inr (round (100 * of_nat (card (set allPages \<inter>
          set [lit ''index'', lit ''biology'', lit ''index'', lit ''bogus'', lit ''trauma''])) / 8
          :: rat)),
        stored_pages [lit ''index'', lit ''biology'', lit ''index'', lit ''bogus'', lit ''trauma''])"
    using getProgressPercentage_round
      [OF h, of "[lit ''index'', lit ''biology'', lit ''index'', lit ''bogus'', lit ''trauma'']"]
    by blast
  then have w1: "fst (getProgressPercentage
         (stored_pages [lit ''index'', lit ''biology'', lit ''index'', lit ''bogus'', lit ''trauma'']))
     = Inr 38"
    unfolding c r by simp
  have e: "set allPages \<inter> set [lit ''bogus''] = {}"
    by (simp add: allPages_def)
  have w2: "fst (getProgressPercentage (stored_pages [lit ''bogus''])) = Inr 0"
    using getProgressPercentage_round [OF h, of "[lit ''bogus'']"] e by blast
  have a: "set allPages \<subseteq> set (lit ''synthesis'' # allPages)"
    by auto
  have w3: "fst (getProgressPercentage (stored_pages (lit ''synthesis'' # allPages))) = Inr 100"
    using getProgressPercentage_round [OF h, of "lit ''synthesis'' # allPages"] a by blast
  from w1 w2 w3 show ?thesis by blast
qed

section \<open>Marking a page completed\<close>

lemma json_of_JStr_comp [simp]: "json_of \<circ> JStr = JStr"
  by (rule ext) simp

lemma markPageCompleted_list:
  assumes "fst (loadFromStorage (lit ''completed_pages'') (JArr []) ls) = Inr (JArr xs)"
  shows "markPageCompleted n ls =
     (Inr (), if JStr n \<in> set xs \<or> disabled ls \<or> full ls then ls
              else ls\<lparr>items := (items ls)(STORAGE_PREFIX @ lit ''completed_pages'' \<mapsto>
                        Serialized (JArr (map json_of xs @ [JStr n])))\<rparr>)"
proof -
  have l: "loadFromStorage (lit ''completed_pages'') (JArr []) ls = (Inr (JArr xs), ls)"
    using assms by (simp add: loadFromStorage_eq)
  show ?thesis
    by (simp add: markPageCompleted_def bind_def l lift_def ret_def saveToStorage_eq
        JSON_stringify_def)
qed

lemma markPageCompleted_pages:
  assumes "fst (loadFromStorage (lit ''completed_pages'') (JArr []) ls) = Inr (JArr (map JStr L))"
  shows "markPageCompleted n ls =
     (Inr (), if n \<in> set L \<or> disabled ls \<or> full ls then ls
              else ls\<lparr>items := (items ls)(STORAGE_PREFIX @ lit ''completed_pages'' \<mapsto>
                        Serialized (JArr (map JStr (L @ [n]))))\<rparr>)"
proof -
  have "JStr n \<in> set (map JStr L) \<longleftrightarrow> n \<in> set L" by auto
  then show ?thesis
    using markPageCompleted_list [OF assms, of n] by simp
qed

lemma load_after_mark:
  assumes "fst (loadFromStorage (lit ''completed_pages'') (JArr []) ls) = Inr (JArr (map JStr L))"
  shows "fst (loadFromStorage (lit ''completed_pages'') (JArr []) (snd (markPageCompleted n ls))) =
     Inr (JArr (map JStr (if n \<in> set L \<or> disabled ls \<or> full ls then L else L @ [n])))"
  using assms
  by (auto simp add: markPageCompleted_pages [OF assms] loadFromStorage_eq split: if_splits)

text \<open>
  C3, as the code has it: from a stored completed-pages list \<open>L\<close> in which \<open>n\<close> occurs at
  most once, two calls of \<open>markPageCompleted n\<close> do not raise and leave the storage as one
  call does. The list stored afterwards is \<open>L\<close>, or \<open>L\<close> with \<open>n\<close> appended when \<open>n\<close> was
  not in it. It holds \<open>n\<close> exactly once when \<open>n\<close> was already there or the storage takes
  the write; when the storage is disabled or full, the write is lost and the list is
  still \<open>L\<close>.
\<close>

theorem markPageCompleted_twice:
  assumes "fst (loadFromStorage (lit ''completed_pages'') (JArr []) ls) = Inr (JArr (map JStr L))"
    and "count_list L n \<le> 1"
  shows "\<exists>L'. mark_twice n ls = (Inr (), snd (markPageCompleted n ls))
       \<and> fst (loadFromStorage (lit ''completed_pages'') (JArr []) (snd (mark_twice n ls))) =
           Inr (JArr (map JStr L'))
       \<and> (L' = L \<or> (L' = L @ [n] \<and> n \<notin> set L))
       \<and> (n \<in> set L \<or> (\<not> disabled ls \<and> \<not> full ls) \<longrightarrow> count_list L' n = 1)
       \<and> (n \<notin> set L \<and> (disabled ls \<or> full ls) \<longrightarrow> L' = L)"
proof -
  define L' where "L' = (if n \<in> set L \<or> disabled ls \<or> full ls then L else L @ [n])"
  define ls1 where "ls1 = snd (markPageCompleted n ls)"
  have first: "markPageCompleted n ls = (Inr (), ls1)"
    by (simp add: ls1_def markPageCompleted_pages [OF assms(1)])
  have l1: "fst (loadFromStorage (lit ''completed_pages'') (JArr []) ls1) = Inr (JArr (map JStr L'))"
    unfolding ls1_def L'_def by (rule load_after_mark [OF assms(1)])
  have flags: "disabled ls1 = disabled ls" "full ls1 = full ls"
    by (simp_all add: ls1_def markPageCompleted_pages [OF assms(1)])
  have "n \<in> set L' \<or> disabled ls1 \<or> full ls1"
    by (auto simp: L'_def flags)
  then have second: "markPageCompleted n ls1 = (Inr (), ls1)"
    by (simp add: markPageCompleted_pages [OF l1])
  have twice: "mark_twice n ls = (Inr (), ls1)"
    by (simp add: mark_twice_def bind_def first second)
  have once: "count_list L' n = 1" if "n \<in> set L \<or> (\<not> disabled ls \<and> \<not> full ls)"
  proof (cases "n \<in> set L")
    case True
    then have "count_list L n \<noteq> 0" by (simp add: count_list_0_iff)
    with assms(2) True show ?thesis by (simp add: L'_def)
  next
    case False
    with that show ?thesis by (simp add: L'_def count_list_0_iff)
  qed
  have "mark_twice n ls = (Inr (), snd (markPageCompleted n ls))"
    using twice by (simp add: ls1_def)
  moreover have "fst (loadFromStorage (lit ''completed_pages'') (JArr []) (snd (mark_twice n ls))) =
           Inr (JArr (map JStr L'))"
    using l1 by (simp add: twice)
  moreover have "L' = L \<or> (L' = L @ [n] \<and> n \<notin> set L)"
    by (auto simp: L'_def)
  moreover have "n \<notin> set L \<and> (disabled ls \<or> full ls) \<longrightarrow> L' = L"
    by (auto simp: L'_def)
  ultimately show ?thesis using once by blast
qed

text \<open>
  With the quota exhausted the list does not change: after two calls for \<open>biology\<close> the
  stored list is still \<open>[index]\<close>, without \<open>biology\<close>.
\<close>

theorem markPageCompleted_full_counterexample:
  "fst (loadFromStorage (lit ''completed_pages'') (JArr []) ((stored_pages [lit ''index''])\<lparr>full := True\<rparr>))
     = Inr (JArr (map JStr [lit ''index'']))
   \<and> count_list [lit ''index''] (lit ''biology'') \<le> 1
   \<and> fst (loadFromStorage (lit ''completed_pages'') (JArr [])
            (snd (mark_twice (lit ''biology'') ((stored_pages [lit ''index''])\<lparr>full := True\<rparr>))))
     = Inr (JArr (map JStr [lit ''index'']))
   \<and> count_list [lit ''index''] (lit ''biology'') \<noteq> 1"
  by (simp add: mark_twice_def bind_def markPageCompleted_def loadFromStorage_eq lift_def ret_def
      saveToStorage_eq stored_pages_def)

theorem markPageCompleted_twice_witness:
  "fst (loadFromStorage (lit ''completed_pages'') (JArr []) (stored_pages [lit ''index'']))
     = Inr (JArr (map JStr [lit ''index'']))
   \<and> count_list [lit ''index''] (lit ''biology'') \<le> 1
   \<and> fst (loadFromStorage (lit ''completed_pages'') (JArr [])
            (snd (mark_twice (lit ''biology'') (stored_pages [lit ''index'']))))
     = Inr (JArr (map JStr [lit ''index'', lit ''biology'']))"
proof -
  have h1: "fst (loadFromStorage (lit ''completed_pages'') (JArr []) (stored_pages [lit ''index'']))
     = Inr (JArr (map JStr [lit ''index'']))"
    by (simp add: loadFromStorage_eq stored_pages_def)
  have h2: "count_list [lit ''index''] (lit ''biology'') \<le> 1"
    by simp
  have w: "\<not> disabled (stored_pages [lit ''index'']) \<and> \<not> full (stored_pages [lit ''index''])"
    by (simp add: stored_pages_def)
  from markPageCompleted_twice [OF h1 h2] obtain L' where
    l: "fst (loadFromStorage (lit ''completed_pages'') (JArr [])
              (snd (mark_twice (lit ''biology'') (stored_pages [lit ''index''])))) =
        Inr (JArr (map JStr L'))"
    and g: "L' = [lit ''index''] \<or> (L' = [lit ''index''] @ [lit ''biology''] \<and> lit ''biology'' \<notin> set [lit ''index''])"
    and c: "lit ''biology'' \<in> set [lit ''index''] \<or> (\<not> disabled (stored_pages [lit ''index'']) \<and> \<not> full (stored_pages [lit ''index''])) \<longrightarrow> count_list L' (lit ''biology'') = 1"
    by blast
  from c w have "count_list L' (lit ''biology'') = 1" by blast
  with g have "L' = [lit ''index'', lit ''biology'']" by auto
  with l h1 h2 show ?thesis by simp
qed

section \<open>Slider label\<close>

lemma digits10_digits: "c \<in> set (digits10 n) \<Longrightarrow> isDigit c"
proof (induction n arbitrary: c rule: digits10.induct)
  case (1 n)
  show ?case
  proof (cases "n < 10")
    case True
    with "1.prems" show ?thesis
      by (simp add: digits10.simps [of n] isDigit_def)
  next
    case False
    with "1.prems" have "c \<in> set (digits10 (n div 10)) \<or> c = 48 + n mod 10"
      by (auto simp add: digits10.simps [of n])
    then show ?thesis
    proof
      assume "c \<in> set (digits10 (n div 10))"
      with "1.IH" False show ?thesis by simp
    next
      assume "c = 48 + n mod 10"
      moreover have "n mod 10 < 10" by simp
      ultimately show ?thesis unfolding isDigit_def by linarith
    qed
  qed
qed

lemma digits10_nonempty: "digits10 n \<noteq> []"
  by (subst digits10.simps) simp

lemma digits_value_snoc: "digits_value (ds @ [c]) = 10 * digits_value ds + (c - 48)"
  by (simp add: digits_value_def)

lemma digits_value_digits10: "digits_value (digits10 n) = n"
proof (induction n rule: digits10.induct)
  case (1 n)
  show ?case
  proof (cases "n < 10")
    case True
    then show ?thesis by (simp add: digits10.simps [of n] digits_value_def)
  next
    case False
    with "1.IH" show ?thesis
      by (simp add: digits10.simps [of n] digits_value_snoc)
  qed
qed

lemma isDigit_not_space: "isDigit c \<Longrightarrow> \<not> isWhiteSpace c"
  by (auto simp: isDigit_def isWhiteSpace_def)

lemma parseInt_digits10:
  assumes "r = [] \<or> \<not> isDigit (hd r)"
  shows "parseInt (digits10 n @ r) = Some (int n)"
proof -
  obtain d ds where ds: "digits10 n = d # ds"
    using digits10_nonempty [of n] by (cases "digits10 n") auto
  have all: "\<forall>c \<in> set (digits10 n). isDigit c"
    using digits10_digits by blast
  then have d: "isDigit d" by (simp add: ds)
  then have nsp: "\<not> isWhiteSpace d" by (rule isDigit_not_space)
  have sign: "d \<noteq> 45" "d \<noteq> 43" using d by (auto simp: isDigit_def)
  have "takeWhile isDigit r = []" using assms by (cases r) auto
  then have tw: "takeWhile isDigit (digits10 n @ r) = digits10 n"
    using all by (simp add: takeWhile_append2)
  have dw: "dropWhile isWhiteSpace (digits10 n @ r) = digits10 n @ r"
    using nsp by (simp add: ds)
  have hd: "hd (digits10 n @ r) = d" "digits10 n @ r \<noteq> []" by (simp_all add: ds)
  show ?thesis
    unfolding parseInt_def dw Let_def
    using sign tw digits10_nonempty [of n] by (simp add: hd digits_value_digits10)
qed

lemma parseInt_Number_toString:
  assumes "0 \<le> n" and "r = [] \<or> \<not> isDigit (hd r)"
  shows "parseInt (Number_toString n @ r) = Some n"
  using assms parseInt_digits10 [of r "nat n"] by (simp add: Number_toString_def)

lemma hd_Number_toString: "0 \<le> n \<Longrightarrow> isDigit (hd (Number_toString n))"
  using digits10_digits [of "hd (digits10 (nat n))" "nat n"] digits10_nonempty [of "nat n"]
  by (simp add: Number_toString_def)

lemma label_not_balanced:
  assumes "0 \<le> n"
  shows "Number_toString n @ r \<noteq> lit ''Exactly balanced''"
proof
  assume eq: "Number_toString n @ r = lit ''Exactly balanced''"
  have ne: "Number_toString n \<noteq> []"
    using assms digits10_nonempty by (simp add: Number_toString_def)
  then have "hd (Number_toString n @ r) = hd (Number_toString n)" by simp
  with eq have "hd (Number_toString n) = hd (lit ''Exactly balanced'')" by simp
  then have "hd (Number_toString n) = 69" by (simp add: lit_def)
  with hd_Number_toString [OF assms] show False by (simp add: isDigit_def)
qed

text \<open>
  C1: for every integer slider value \<open>v\<close> from 0 to 100, \<open>formatConscienceSlider v\<close> is the
  neutral label exactly when \<open>v = 50\<close>; below 50 it is the decimal text of \<open>100 - v\<close>
  followed by \<open>% Constructed\<close>, and the number read back from it is \<open>100 - v\<close>; above 50
  it is the decimal text of \<open>v\<close> followed by \<open>% Innate\<close>, and the number read back is \<open>v\<close>.
\<close>

theorem formatConscienceSlider_bands:
  assumes "0 \<le> v" and "v \<le> 100"
  shows "(formatConscienceSlider v = lit ''Exactly balanced'' \<longleftrightarrow> v = 50)
       \<and> (v < 50 \<longrightarrow>
            formatConscienceSlider v = Number_toString (100 - v) @ lit ''% Constructed''
            \<and> parseInt (formatConscienceSlider v) = Some (100 - v))
       \<and> (50 < v \<longrightarrow>
            formatConscienceSlider v = Number_toString v @ lit ''% Innate''
            \<and> parseInt (formatConscienceSlider v) = Some v)"
proof -
  have pc: "lit ''% Constructed'' = [] \<or> \<not> isDigit (hd (lit ''% Constructed''))"
    by (simp add: lit_def isDigit_def)
  have pi: "lit ''% Innate'' = [] \<or> \<not> isDigit (hd (lit ''% Innate''))"
    by (simp add: lit_def isDigit_def)
  have low: "formatConscienceSlider v = Number_toString (100 - v) @ lit ''% Constructed''
       \<and> parseInt (formatConscienceSlider v) = Some (100 - v)" if "v < 50"
    using that assms parseInt_Number_toString [OF _ pc, of "100 - v"]
    by (simp add: formatConscienceSlider_def)
  have high: "formatConscienceSlider v = Number_toString v @ lit ''% Innate''
       \<and> parseInt (formatConscienceSlider v) = Some v" if "50 < v"
    using that assms parseInt_Number_toString [OF _ pi, of v]
    by (simp add: formatConscienceSlider_def)
  have mid: "formatConscienceSlider v = lit ''Exactly balanced'' \<longleftrightarrow> v = 50"
  proof (cases "v = 50")
    case True
    then show ?thesis by (simp add: formatConscienceSlider_def)
  next
    case False
    then have "formatConscienceSlider v \<noteq> lit ''Exactly balanced''"
      using assms label_not_balanced [of "100 - v"] label_not_balanced [of v]
      by (simp add: formatConscienceSlider_def)
    with False show ?thesis by simp
  qed
  from low high mid show ?thesis by blast
qed

theorem formatConscienceSlider_bands_witness:
  "(0::int) \<le> 30 \<and> (30::int) \<le> 100 \<and> (0::int) \<le> 50 \<and> (0::int) \<le> 73 \<and> (73::int) \<le> 100
   \<and> formatConscienceSlider 30 = lit ''70% Constructed''
   \<and> parseInt (formatConscienceSlider 30) = Some 70
   \<and> formatConscienceSlider 50 = lit ''Exactly balanced''
   \<and> formatConscienceSlider 73 = lit ''73% Innate''
   \<and> parseInt (formatConscienceSlider 73) = Some 73"
proof -
  have n70: "Number_toString 70 @ lit ''% Constructed'' = lit ''70% Constructed''"
    by code_simp
  have n73: "Number_toString 73 @ lit ''% Innate'' = lit ''73% Innate''"
    by code_simp
  have a: "formatConscienceSlider 30 = Number_toString (100 - 30) @ lit ''% Constructed''
       \<and> parseInt (formatConscienceSlider 30) = Some (100 - 30)"
    using formatConscienceSlider_bands [of 30] by auto
  have b: "formatConscienceSlider 50 = lit ''Exactly balanced''"
    using formatConscienceSlider_bands [of 50] by simp
  have c: "formatConscienceSlider 73 = Number_toString 73 @ lit ''% Innate''
       \<and> parseInt (formatConscienceSlider 73) = Some 73"
    using formatConscienceSlider_bands [of 73] by auto
  have a1: "formatConscienceSlider 30 = lit ''70% Constructed''"
    using a [THEN conjunct1] n70 by simp
  have a2: "parseInt (formatConscienceSlider 30) = Some 70"
    using a [THEN conjunct2] by simp
  have c1: "formatConscienceSlider 73 = lit ''73% Innate''"
    using c [THEN conjunct1] n73 by simp
  from a1 a2 b c1 c [THEN conjunct2] show ?thesis by simp
qed


section \<open>Character counter\<close>

lemma color_updateCounter:
  "color (updateCounter m M s c) =
     (if int (length s) < m then lit ''var(--color-text-muted)''
      else if int (length s) \<le> M then lit ''var(--color-success)''
      else lit ''var(--color-warning)'')"
  by (simp add: updateCounter_def Let_def)

text \<open>
  C6: with thresholds \<open>m \<le> M\<close> and a text of length \<open>n\<close>, the counter takes the colour
  for "below the minimum" exactly when \<open>n < m\<close>, the colour for "within range" exactly
  when \<open>m \<le> n \<le> M\<close> and the colour for "over" exactly when \<open>n > M\<close>. At \<open>n = m\<close> it is
  not the first, at \<open>n = M\<close> it is the second, at \<open>n = M + 1\<close> the third. Without
  arguments \<open>initCharCounter\<close> takes 100 and 500.
\<close>

theorem charCounter_bands:
  assumes "m \<le> M"
  shows "(color (updateCounter m M s c) = lit ''var(--color-text-muted)'' \<longleftrightarrow> int (length s) < m)
       \<and> (color (updateCounter m M s c) = lit ''var(--color-success)'' \<longleftrightarrow>
            m \<le> int (length s) \<and> int (length s) \<le> M)
       \<and> (color (updateCounter m M s c) = lit ''var(--color-warning)'' \<longleftrightarrow> M < int (length s))
       \<and> (int (length s) = m \<longrightarrow> color (updateCounter m M s c) \<noteq> lit ''var(--color-text-muted)'')
       \<and> (int (length s) = M \<longrightarrow> color (updateCounter m M s c) = lit ''var(--color-success)'')
       \<and> (int (length s) = M + 1 \<longrightarrow> color (updateCounter m M s c) = lit ''var(--color-warning)'')
       \<and> initCharCounter (Some s) (Some c) None None = Some (updateCounter 100 500 s c)
       \<and> initCharCounter (Some s) (Some c) (Some m) (Some M) = Some (updateCounter m M s c)"
  using assms by (auto simp add: color_updateCounter initCharCounter_def)

theorem charCounter_bands_witness:
  "(100::int) \<le> 500
   \<and> color (updateCounter 100 500 (replicate 99 97) \<lparr>textContent = [], color = []\<rparr>)
       = lit ''var(--color-text-muted)''
   \<and> color (updateCounter 100 500 (replicate 100 97) \<lparr>textContent = [], color = []\<rparr>)
       = lit ''var(--color-success)''
   \<and> color (updateCounter 100 500 (replicate 500 97) \<lparr>textContent = [], color = []\<rparr>)
       = lit ''var(--color-success)''
   \<and> color (updateCounter 100 500 (replicate 501 97) \<lparr>textContent = [], color = []\<rparr>)
       = lit ''var(--color-warning)''"
proof -
  have h: "(100::int) \<le> 500" by simp
  show ?thesis
    using charCounter_bands [OF h, of "replicate 99 97" "\<lparr>textContent = [], color = []\<rparr>"]
      charCounter_bands [OF h, of "replicate 100 97" "\<lparr>textContent = [], color = []\<rparr>"]
      charCounter_bands [OF h, of "replicate 500 97" "\<lparr>textContent = [], color = []\<rparr>"]
      charCounter_bands [OF h, of "replicate 501 97" "\<lparr>textContent = [], color = []\<rparr>"]
    by simp
qed

section \<open>Reveal blocks\<close>

lemma Boolean_toString_true [simp]: "Boolean_toString b = lit ''true'' \<longleftrightarrow> b"
  by (simp add: Boolean_toString_def)

lemma flags_init: "(expanded (reveal_init r0), hidden (reveal_init r0)) = spec_reveal_init"
  by (simp add: expanded_def hidden_def reveal_init_def spec_reveal_init_def)

lemma flags_click:
  "(expanded (reveal_click r), hidden (reveal_click r)) = spec_reveal_click (expanded r, hidden r)"
  by (simp add: expanded_def hidden_def reveal_click_def spec_reveal_click_def Let_def)

lemma reveal_invariant: "reveal_reachable r0 r \<Longrightarrow> hidden r = (\<not> expanded r)"
proof (induction rule: reveal_reachable.induct)
  case (reach_init r0)
  then show ?case using flags_init [of r0] by (simp add: spec_reveal_init_def)
next
  case (reach_click r0 r)
  then show ?case using flags_click [of r] by (simp add: spec_reveal_click_def)
qed

lemma reveal_attrs:
  "reveal_reachable r0 r \<Longrightarrow>
     aria_expanded r = Boolean_toString (expanded r) \<and> aria_hidden r = Boolean_toString (hidden r)"
  by (induction rule: reveal_reachable.induct)
     (simp_all add: reveal_init_def reveal_click_def expanded_def hidden_def Boolean_toString_def
        Let_def)

text \<open>
  C8: read as the two flags (expanded, hidden), a trigger with its content is set to
  (false, true) by the initialisation and taken from \<open>(e, h)\<close> to \<open>(\<not> e, e)\<close> by a click.
  In every state reached from the initialisation by clicks, hidden is the negation of
  expanded, and both attributes hold the text of their flag.
\<close>

theorem reveal_mirror:
  "(expanded (reveal_init r0), hidden (reveal_init r0)) = spec_reveal_init
   \<and> (expanded (reveal_click r), hidden (reveal_click r)) = spec_reveal_click (expanded r, hidden r)
   \<and> (reveal_reachable r0 r \<longrightarrow>
        hidden r = (\<not> expanded r)
        \<and> aria_expanded r = Boolean_toString (expanded r)
        \<and> aria_hidden r = Boolean_toString (hidden r))"
  using flags_init flags_click reveal_invariant reveal_attrs by blast

theorem reveal_mirror_witness:
  "reveal_reachable \<lparr>aria_expanded = [], aria_hidden = []\<rparr>
     (reveal_click (reveal_click (reveal_click (reveal_init \<lparr>aria_expanded = [], aria_hidden = []\<rparr>))))
   \<and> hidden (reveal_click (reveal_click (reveal_click (reveal_init \<lparr>aria_expanded = [], aria_hidden = []\<rparr>))))
       = (\<not> expanded (reveal_click (reveal_click (reveal_click (reveal_init \<lparr>aria_expanded = [], aria_hidden = []\<rparr>)))))
   \<and> reveal_click (reveal_click (reveal_click (reveal_init \<lparr>aria_expanded = [], aria_hidden = []\<rparr>)))
       = \<lparr>aria_expanded = lit ''true'', aria_hidden = lit ''false''\<rparr>"
proof -
  have r: "reveal_reachable \<lparr>aria_expanded = [], aria_hidden = []\<rparr>
     (reveal_click (reveal_click (reveal_click (reveal_init \<lparr>aria_expanded = [], aria_hidden = []\<rparr>))))"
    by (intro reach_click reach_init)
  have v: "reveal_click (reveal_click (reveal_click (reveal_init \<lparr>aria_expanded = [], aria_hidden = []\<rparr>)))
       = \<lparr>aria_expanded = lit ''true'', aria_hidden = lit ''false''\<rparr>"
    by (simp add: reveal_click_def reveal_init_def Boolean_toString_def)
  from reveal_mirror [of "\<lparr>aria_expanded = [], aria_hidden = []\<rparr>"
      "reveal_click (reveal_click (reveal_click (reveal_init \<lparr>aria_expanded = [], aria_hidden = []\<rparr>)))"] r
  have "hidden (reveal_click (reveal_click (reveal_click (reveal_init \<lparr>aria_expanded = [], aria_hidden = []\<rparr>))))
       = (\<not> expanded (reveal_click (reveal_click (reveal_click (reveal_init \<lparr>aria_expanded = [], aria_hidden = []\<rparr>)))))"
    by blast
  with r v show ?thesis by blast
qed

section \<open>Synthesis submission\<close>

lemma submit_rejected:
  assumes "synthesisTextarea p = Some s" and "length (trim s) < 100"
  shows "submit_handler p = (Inr (), rejected p)"
  using assms by (simp add: submit_handler_def Let_def showConfirmation_def rejected_def)

lemma submit_accepted:
  assumes "synthesisTextarea p = Some s" and "100 \<le> length (trim s)"
  shows "submit_handler p =
     (case submit_storage (trim s) (sliderValue_of p) (storage p) of
        (Inl e, ls) \<Rightarrow> (Inl e, p\<lparr>defaultPrevented := True, storage := ls\<rparr>)
      | (Inr u, ls) \<Rightarrow> (Inr (), accepted ls p))"
  using assms
  by (simp add: submit_handler_def Let_def showConfirmation_def accepted_def sliderValue_of_def
      submit_storage_def bind_def on_storage_def setTimeout_def saveToStorage_eq
      split: prod.splits sum.splits)

lemma markPageCompleted_frame:
  "disabled (snd (markPageCompleted n ls)) = disabled ls
   \<and> full (snd (markPageCompleted n ls)) = full ls
   \<and> (k \<noteq> STORAGE_PREFIX @ lit ''completed_pages'' \<longrightarrow>
        items (snd (markPageCompleted n ls)) k = items ls k)"
proof -
  obtain v where l: "loadFromStorage (lit ''completed_pages'') (JArr []) ls = (Inr v, ls)"
    by (simp add: loadFromStorage_eq)
  show ?thesis
    by (cases v)
       (simp_all add: markPageCompleted_def bind_def l lift_def ret_def saveToStorage_eq)
qed

lemma submit_storage_item:
  "items (snd (submit_storage t v ls)) (STORAGE_PREFIX @ lit ''synthesis_statement'') =
     (if disabled ls \<or> full ls then items ls (STORAGE_PREFIX @ lit ''synthesis_statement'')
      else Some (Serialized (JStr t)))"
  using markPageCompleted_frame
  by (simp add: submit_storage_def bind_def saveToStorage_eq JSON_stringify_def)


lemma length_trim_le: "length (trim s) \<le> length s"
proof -
  have "length (trim s) \<le> length (dropWhile isWhiteSpace s)"
    unfolding trim_def using length_dropWhile_le [of isWhiteSpace "rev (dropWhile isWhiteSpace s)"]
    by simp
  also have "\<dots> \<le> length s" by (rule length_dropWhile_le)
  finally show ?thesis .
qed

lemma submit_storage_writable:
  assumes "\<not> disabled ls" and "\<not> full ls"
    and "fst (loadFromStorage (lit ''completed_pages'') (JArr []) ls) = Inr (JArr xs)"
  shows "\<exists>ls' ys. submit_storage t v ls = (Inr (), ls')
       \<and> items ls' (STORAGE_PREFIX @ lit ''synthesis_statement'') = Some (Serialized (JStr t))
       \<and> items ls' (STORAGE_PREFIX @ lit ''final_slider'') = Some (JSON_stringify v)
       \<and> fst (loadFromStorage (lit ''completed_pages'') (JArr []) ls') = Inr (JArr ys)
       \<and> JStr (lit ''synthesis'') \<in> set ys"
proof -
  define ls2 where "ls2 = ls\<lparr>items := (items ls)
      (STORAGE_PREFIX @ lit ''synthesis_statement'' \<mapsto> Serialized (JStr t),
       STORAGE_PREFIX @ lit ''final_slider'' \<mapsto> JSON_stringify v)\<rparr>"
  have saves: "submit_storage t v ls = markPageCompleted (lit ''synthesis'') ls2"
    using assms(1,2)
    by (simp add: submit_storage_def bind_def saveToStorage_eq ls2_def JSON_stringify_def)
  have l2: "fst (loadFromStorage (lit ''completed_pages'') (JArr []) ls2) = Inr (JArr xs)"
    using assms by (simp add: loadFromStorage_eq ls2_def)
  have w2: "\<not> disabled ls2" "\<not> full ls2"
    using assms(1,2) by (simp_all add: ls2_def)
  have i2: "items ls2 (STORAGE_PREFIX @ lit ''synthesis_statement'') = Some (Serialized (JStr t))"
    "items ls2 (STORAGE_PREFIX @ lit ''final_slider'') = Some (JSON_stringify v)"
    by (simp_all add: ls2_def)
  show ?thesis
  proof (cases "JStr (lit ''synthesis'') \<in> set xs")
    case True
    then have "markPageCompleted (lit ''synthesis'') ls2 = (Inr (), ls2)"
      by (simp add: markPageCompleted_list [OF l2])
    with saves i2 l2 True show ?thesis by auto
  next
    case False
    define ls3 where "ls3 = ls2\<lparr>items := (items ls2)(STORAGE_PREFIX @ lit ''completed_pages'' \<mapsto>
        Serialized (JArr (map json_of xs @ [JStr (lit ''synthesis'')])))\<rparr>"
    have m: "markPageCompleted (lit ''synthesis'') ls2 = (Inr (), ls3)"
      using False w2 by (simp add: markPageCompleted_list [OF l2] ls3_def)
    have l3: "fst (loadFromStorage (lit ''completed_pages'') (JArr []) ls3) =
        Inr (JArr (map json_of xs @ [JStr (lit ''synthesis'')]))"
      using w2 by (simp add: loadFromStorage_eq ls3_def)
    have i3: "items ls3 (STORAGE_PREFIX @ lit ''synthesis_statement'') = Some (Serialized (JStr t))"
      "items ls3 (STORAGE_PREFIX @ lit ''final_slider'') = Some (JSON_stringify v)"
      using i2 by (simp_all add: ls3_def)
    from saves m i3 l3 show ?thesis by auto
  qed
qed

lemma submit_storage_list:
  assumes "fst (loadFromStorage (lit ''completed_pages'') (JArr []) ls) = Inr (JArr xs)"
  shows "\<exists>ls'. submit_storage t v ls = (Inr (), ls')
       \<and> (\<not> disabled ls \<and> \<not> full ls \<longrightarrow>
            items ls' (STORAGE_PREFIX @ lit ''synthesis_statement'') = Some (Serialized (JStr t))
            \<and> items ls' (STORAGE_PREFIX @ lit ''final_slider'') = Some (JSON_stringify v)
            \<and> (\<exists>ys. fst (loadFromStorage (lit ''completed_pages'') (JArr []) ls') = Inr (JArr ys)
                 \<and> JStr (lit ''synthesis'') \<in> set ys))"
proof (cases "disabled ls \<or> full ls")
  case True
  then have "submit_storage t v ls = markPageCompleted (lit ''synthesis'') ls"
    by (simp add: submit_storage_def bind_def saveToStorage_eq)
  also have "\<dots> = (Inr (), ls)"
    using True by (simp add: markPageCompleted_list [OF assms])
  finally show ?thesis using True by auto
next
  case False
  then have w: "\<not> disabled ls" "\<not> full ls" by simp_all
  from submit_storage_writable [OF w assms, of t v] show ?thesis by blast
qed

text \<open>
  C4, as the code has it: the length that counts is that of the trimmed text. A submission
  whose trimmed text is shorter than 100, so every text of length 99, is rejected: the
  message is shown, the storage is as before and no navigation is scheduled. A submission
  whose trimmed text has length at least 100, so every text of length 100 without white
  space at its ends, is accepted when the completed pages in the storage are a list: the
  confirmation is shown and the navigation to \<open>conclusion.html\<close> is scheduled after
  1500 ms; and when the storage takes writes, the trimmed text and the slider value are
  stored and \<open>synthesis\<close> is in the list of completed pages.
\<close>

theorem submit_handler_threshold:
  assumes "synthesisTextarea p = Some s"
  shows "(length (trim s) < 100 \<longrightarrow> submit_handler p = (Inr (), rejected p))
       \<and> (length s = 99 \<longrightarrow> submit_handler p = (Inr (), rejected p))
       \<and> (100 \<le> length (trim s)
            \<and> fst (loadFromStorage (lit ''completed_pages'') (JArr []) (storage p)) = Inr (JArr xs)
          \<longrightarrow> (\<exists>ls. submit_handler p = (Inr (), accepted ls p)
                \<and> (\<not> disabled (storage p) \<and> \<not> full (storage p) \<longrightarrow>
                     items ls (STORAGE_PREFIX @ lit ''synthesis_statement'') =
                       Some (Serialized (JStr (trim s)))
                     \<and> items ls (STORAGE_PREFIX @ lit ''final_slider'') =
                       Some (JSON_stringify (sliderValue_of p))
                     \<and> (\<exists>ys. fst (loadFromStorage (lit ''completed_pages'') (JArr []) ls) =
                                Inr (JArr ys)
                          \<and> JStr (lit ''synthesis'') \<in> set ys))))
       \<and> (length s = 100 \<and> trim s = s
            \<and> fst (loadFromStorage (lit ''completed_pages'') (JArr []) (storage p)) = Inr (JArr xs)
          \<longrightarrow> (\<exists>ls. submit_handler p = (Inr (), accepted ls p)
                \<and> (\<not> disabled (storage p) \<and> \<not> full (storage p) \<longrightarrow>
                     items ls (STORAGE_PREFIX @ lit ''synthesis_statement'') =
                       Some (Serialized (JStr s)))))"
proof -
  have rej: "submit_handler p = (Inr (), rejected p)" if "length (trim s) < 100"
    using assms that by (rule submit_rejected)
  have "length (trim s) < 100" if "length s = 99"
    using length_trim_le [of s] that by simp
  then have rej99: "submit_handler p = (Inr (), rejected p)" if "length s = 99"
    using rej that by blast
  have acc: "\<exists>ls. submit_handler p = (Inr (), accepted ls p)
                \<and> (\<not> disabled (storage p) \<and> \<not> full (storage p) \<longrightarrow>
                     items ls (STORAGE_PREFIX @ lit ''synthesis_statement'') =
                       Some (Serialized (JStr (trim s)))
                     \<and> items ls (STORAGE_PREFIX @ lit ''final_slider'') =
                       Some (JSON_stringify (sliderValue_of p))
                     \<and> (\<exists>ys. fst (loadFromStorage (lit ''completed_pages'') (JArr []) ls) =
                                Inr (JArr ys)
                          \<and> JStr (lit ''synthesis'') \<in> set ys))"
    if "100 \<le> length (trim s)"
       "fst (loadFromStorage (lit ''completed_pages'') (JArr []) (storage p)) = Inr (JArr xs)"
  proof -
    from submit_storage_list [OF that(2), of "trim s" "sliderValue_of p"]
    obtain ls where st: "submit_storage (trim s) (sliderValue_of p) (storage p) = (Inr (), ls)"
      and rest: "\<not> disabled (storage p) \<and> \<not> full (storage p) \<longrightarrow>
            items ls (STORAGE_PREFIX @ lit ''synthesis_statement'') =
              Some (Serialized (JStr (trim s)))
            \<and> items ls (STORAGE_PREFIX @ lit ''final_slider'') =
              Some (JSON_stringify (sliderValue_of p))
            \<and> (\<exists>ys. fst (loadFromStorage (lit ''completed_pages'') (JArr []) ls) = Inr (JArr ys)
                 \<and> JStr (lit ''synthesis'') \<in> set ys)"
      by blast
    have "submit_handler p = (Inr (), accepted ls p)"
      by (simp add: submit_accepted [OF assms that(1)] st)
    with rest show ?thesis by blast
  qed
  have acc100: "\<exists>ls. submit_handler p = (Inr (), accepted ls p)
                \<and> (\<not> disabled (storage p) \<and> \<not> full (storage p) \<longrightarrow>
                     items ls (STORAGE_PREFIX @ lit ''synthesis_statement'') =
                       Some (Serialized (JStr s)))"
    if "length s = 100" "trim s = s"
       "fst (loadFromStorage (lit ''completed_pages'') (JArr []) (storage p)) = Inr (JArr xs)"
  proof -
    have "100 \<le> length (trim s)" using that(1,2) by simp
    from acc [OF this that(3)] that(2) show ?thesis by auto
  qed
  from rej rej99 acc acc100 show ?thesis by blast
qed

lemma trim_padded: "length (trim (replicate 99 97 @ [32])) < 100"
  using length_trim_le [of "replicate 99 97"] by (simp add: trim_def isWhiteSpace_def)

text \<open>
  A text of length 100 that ends in a space is rejected, over a working storage:
  nothing is stored and only the toast's timer is pending.
\<close>

theorem submit_padded_counterexample:
  "length (replicate 99 97 @ [32 :: nat]) = 100
   \<and> submit_handler (example_page (replicate 99 97 @ [32])) =
       (Inr (), rejected (example_page (replicate 99 97 @ [32])))
   \<and> storage (rejected (example_page (replicate 99 97 @ [32]))) =
       storage (example_page (replicate 99 97 @ [32]))
   \<and> timers (rejected (example_page (replicate 99 97 @ [32]))) = [(3000, RemoveToast)]"
proof -
  have t: "synthesisTextarea (example_page (replicate 99 97 @ [32])) = Some (replicate 99 97 @ [32])"
    by (simp add: example_page_def)
  show ?thesis
    using submit_rejected [OF t trim_padded] by (simp add: rejected_def example_page_def)
qed


lemma trim_unpadded:
  assumes "s \<noteq> []" and "\<not> isWhiteSpace (hd s)" and "\<not> isWhiteSpace (last s)"
  shows "trim s = s"
proof -
  have a: "dropWhile isWhiteSpace s = s"
    using assms(1,2) by (cases s) auto
  have "rev s \<noteq> []" "\<not> isWhiteSpace (hd (rev s))"
    using assms(1,3) by (simp_all add: hd_rev)
  then have "dropWhile isWhiteSpace (rev s) = rev s"
    by (cases "rev s") auto
  with a show ?thesis by (simp add: trim_def)
qed

lemma trim_letters: "trim (replicate 100 97) = replicate 100 97"
  by (rule trim_unpadded) (simp_all add: isWhiteSpace_def)

lemma trim_padded_both: "trim ([32] @ replicate 100 97 @ [32]) = replicate 100 97"
proof -
  have "dropWhile isWhiteSpace (rev (replicate 100 97 @ [32])) = replicate 100 97"
    using trim_letters by (simp add: isWhiteSpace_def trim_def)
  then show ?thesis
    by (simp add: trim_def isWhiteSpace_def)
qed

theorem submit_handler_threshold_witness:
  "synthesisTextarea (example_page (replicate 99 97)) = Some (replicate 99 97)
   \<and> length (replicate 99 (97::nat)) = 99
   \<and> submit_handler (example_page (replicate 99 97)) =
       (Inr (), rejected (example_page (replicate 99 97)))
   \<and> length (replicate 100 (97::nat)) = 100
   \<and> trim (replicate 100 97) = replicate 100 97
   \<and> (\<exists>ls. submit_handler (example_page (replicate 100 97)) =
              (Inr (), accepted ls (example_page (replicate 100 97)))
           \<and> items ls (STORAGE_PREFIX @ lit ''synthesis_statement'') =
               Some (Serialized (JStr (replicate 100 97)))
           \<and> items ls (STORAGE_PREFIX @ lit ''final_slider'') = Some (Serialized (JNum 70))
           \<and> fst (isPageCompleted (lit ''synthesis'') ls) = Inr True)"
proof -
  have t: "synthesisTextarea (example_page s) = Some s" for s
    by (simp add: example_page_def)
  have w: "\<not> disabled (storage (example_page s))" "\<not> full (storage (example_page s))"
    "fst (loadFromStorage (lit ''completed_pages'') (JArr []) (storage (example_page s))) =
       Inr (JArr [JStr (lit ''index'')])" for s
    by (simp_all add: example_page_def stored_pages_def loadFromStorage_eq)
  have v: "JSON_stringify (sliderValue_of (example_page s)) = Serialized (JNum 70)" for s
    by (simp add: sliderValue_of_def example_page_def parseInt_def isWhiteSpace_def isDigit_def
        digits_value_def number_val_def JSON_stringify_def lit_def)
  have a: "submit_handler (example_page (replicate 99 97)) =
       (Inr (), rejected (example_page (replicate 99 97)))"
    using submit_handler_threshold [OF t, of "replicate 99 97"] by simp
  have "100 \<le> length (trim (replicate 100 97))"
    unfolding trim_letters by simp
  with submit_handler_threshold [OF t, of "replicate 100 97" "[JStr (lit ''index'')]"]
    w [of "replicate 100 97"]
  obtain ls ys where b: "submit_handler (example_page (replicate 100 97)) =
              (Inr (), accepted ls (example_page (replicate 100 97)))"
    "items ls (STORAGE_PREFIX @ lit ''synthesis_statement'') =
               Some (Serialized (JStr (trim (replicate 100 97))))"
    "items ls (STORAGE_PREFIX @ lit ''final_slider'') =
               Some (JSON_stringify (sliderValue_of (example_page (replicate 100 97))))"
    "fst (loadFromStorage (lit ''completed_pages'') (JArr []) ls) = Inr (JArr ys)"
    "JStr (lit ''synthesis'') \<in> set ys"
    by blast
  have c: "fst (isPageCompleted (lit ''synthesis'') ls) = Inr True"
  proof -
    have "loadFromStorage (lit ''completed_pages'') (JArr []) ls = (Inr (JArr ys), ls)"
      using b(4) by (simp add: loadFromStorage_eq)
    then show ?thesis
      using b(5) by (simp add: isPageCompleted_def bind_def lift_def)
  qed
  from a b(1,2,3) c t show ?thesis
    unfolding trim_letters v by auto
qed

lemma accepted_not_rejected: "accepted ls p \<noteq> rejected p"
proof
  assume "accepted ls p = rejected p"
  then have "toast (accepted ls p) = toast (rejected p)" by simp
  then show False by (simp add: accepted_def rejected_def)
qed

text \<open>
  C9, as the code has it: the length check of the submission is on the trimmed text. For
  every text \<open>s\<close> in the text area the submission is rejected exactly when \<open>trim s\<close> is
  shorter than 100. When it is accepted and the storage takes the write, what is stored
  under \<open>synthesis_statement\<close> is \<open>trim s\<close>, not \<open>s\<close>; when the storage is disabled or
  full, the entry stays as it was.
\<close>

theorem submit_handler_trims:
  assumes "synthesisTextarea p = Some s"
  shows "(submit_handler p = (Inr (), rejected p) \<longleftrightarrow> length (trim s) < 100)
       \<and> (100 \<le> length (trim s) \<longrightarrow>
            items (storage (snd (submit_handler p))) (STORAGE_PREFIX @ lit ''synthesis_statement'') =
              (if disabled (storage p) \<or> full (storage p)
               then items (storage p) (STORAGE_PREFIX @ lit ''synthesis_statement'')
               else Some (Serialized (JStr (trim s)))))"
proof -
  have acc: "submit_handler p \<noteq> (Inr (), rejected p)
       \<and> items (storage (snd (submit_handler p))) (STORAGE_PREFIX @ lit ''synthesis_statement'') =
              (if disabled (storage p) \<or> full (storage p)
               then items (storage p) (STORAGE_PREFIX @ lit ''synthesis_statement'')
               else Some (Serialized (JStr (trim s))))"
    if "100 \<le> length (trim s)"
  proof -
    obtain r ls where st: "submit_storage (trim s) (sliderValue_of p) (storage p) = (r, ls)"
      by (cases "submit_storage (trim s) (sliderValue_of p) (storage p)")
    have it: "items ls (STORAGE_PREFIX @ lit ''synthesis_statement'') =
              (if disabled (storage p) \<or> full (storage p)
               then items (storage p) (STORAGE_PREFIX @ lit ''synthesis_statement'')
               else Some (Serialized (JStr (trim s))))"
      using submit_storage_item [of "trim s" "sliderValue_of p" "storage p"] by (simp add: st)
    show ?thesis
      using it accepted_not_rejected [of ls p]
      by (cases r) (simp_all add: submit_accepted [OF assms that] st accepted_def)
  qed
  have rej: "submit_handler p = (Inr (), rejected p)" if "length (trim s) < 100"
    using assms that by (rule submit_rejected)
  from acc rej show ?thesis
    by (cases "length (trim s) < 100") auto
qed

text \<open>
  Over a storage whose quota is exhausted, a text of a hundred letters is accepted and the
  entry under \<open>synthesis_statement\<close> is still the earlier draft, not the trimmed text.
\<close>

theorem submit_full_counterexample:
  "100 \<le> length (trim (replicate 100 97))
   \<and> submit_handler (full_page (replicate 100 97)) =
       (Inr (), accepted (storage (full_page (replicate 100 97))) (full_page (replicate 100 97)))
   \<and> items (storage (snd (submit_handler (full_page (replicate 100 97)))))
        (STORAGE_PREFIX @ lit ''synthesis_statement'') = Some (Serialized (JStr (lit ''draft'')))
   \<and> Serialized (JStr (lit ''draft'')) \<noteq> Serialized (JStr (trim (replicate 100 97)))"
proof -
  have t: "synthesisTextarea (full_page (replicate 100 97)) = Some (replicate 100 97)"
    by (simp add: full_page_def example_page_def)
  have n: "100 \<le> length (trim (replicate 100 97))"
    unfolding trim_letters by simp
  have l: "fst (loadFromStorage (lit ''completed_pages'') (JArr [])
             (storage (full_page (replicate 100 97)))) = Inr (JArr [])"
    by (simp add: loadFromStorage_eq full_page_def STORAGE_PREFIX_def)
  have f: "full (storage (full_page (replicate 100 97)))"
    by (simp add: full_page_def)
  have st: "submit_storage (trim (replicate 100 97)) (sliderValue_of (full_page (replicate 100 97)))
        (storage (full_page (replicate 100 97))) = (Inr (), storage (full_page (replicate 100 97)))"
    using f by (simp add: submit_storage_def bind_def saveToStorage_eq markPageCompleted_list [OF l])
  have h: "submit_handler (full_page (replicate 100 97)) =
       (Inr (), accepted (storage (full_page (replicate 100 97))) (full_page (replicate 100 97)))"
    by (simp add: submit_accepted [OF t n] st)
  have i: "items (storage (snd (submit_handler (full_page (replicate 100 97)))))
        (STORAGE_PREFIX @ lit ''synthesis_statement'') = Some (Serialized (JStr (lit ''draft'')))"
    unfolding h by (simp add: accepted_def full_page_def)
  have d: "Serialized (JStr (lit ''draft'')) \<noteq> Serialized (JStr (trim (replicate 100 97)))"
  proof
    assume "Serialized (JStr (lit ''draft'')) = Serialized (JStr (trim (replicate 100 97)))"
    then have "length (lit ''draft'') = length (replicate 100 (97::nat))"
      unfolding trim_letters by simp
    then show False by simp
  qed
  from n h i d show ?thesis by blast
qed

theorem submit_handler_trims_witness:
  "synthesisTextarea (example_page (replicate 99 97 @ [32])) = Some (replicate 99 97 @ [32])
   \<and> length (replicate 99 97 @ [32 :: nat]) = 100
   \<and> submit_handler (example_page (replicate 99 97 @ [32])) =
       (Inr (), rejected (example_page (replicate 99 97 @ [32])))
   \<and> items (storage (snd (submit_handler (example_page ([32] @ replicate 100 97 @ [32])))))
       (STORAGE_PREFIX @ lit ''synthesis_statement'') = Some (Serialized (JStr (replicate 100 97)))"
proof -
  have t: "synthesisTextarea (example_page s) = Some s" for s
    by (simp add: example_page_def)
  have w: "\<not> disabled (storage (example_page s))" "\<not> full (storage (example_page s))" for s
    by (simp_all add: example_page_def stored_pages_def)
  have a: "submit_handler (example_page (replicate 99 97 @ [32])) =
       (Inr (), rejected (example_page (replicate 99 97 @ [32])))"
    using submit_handler_trims [OF t, of "replicate 99 97 @ [32]"] trim_padded by blast
  have "100 \<le> length (trim ([32] @ replicate 100 97 @ [32]))"
    unfolding trim_padded_both by simp
  then have b: "items (storage (snd (submit_handler (example_page ([32] @ replicate 100 97 @ [32])))))
       (STORAGE_PREFIX @ lit ''synthesis_statement'') = Some (Serialized (JStr (replicate 100 97)))"
    using submit_handler_trims [OF t, of "[32] @ replicate 100 97 @ [32]"]
      w [of "[32] @ replicate 100 97 @ [32]"]
    unfolding trim_padded_both by simp
  from a b t show ?thesis by simp
qed

section \<open>Export\<close>

text \<open>A submission with the final slider at 0 stores the number 0.\<close>

lemma zero_slider_stored:
  "items (storage (snd (submit_handler zero_slider_page))) (STORAGE_PREFIX @ lit ''final_slider'')
     = Some (Serialized (JNum 0))"
proof -
  have t: "synthesisTextarea zero_slider_page = Some (replicate 100 97)"
    by (simp add: zero_slider_page_def example_page_def)
  have n: "100 \<le> length (trim (replicate 100 97))"
    unfolding trim_letters by simp
  have w: "\<not> disabled (storage zero_slider_page)" "\<not> full (storage zero_slider_page)"
    "fst (loadFromStorage (lit ''completed_pages'') (JArr []) (storage zero_slider_page)) =
       Inr (JArr [JStr (lit ''index'')])"
    by (simp_all add: zero_slider_page_def example_page_def stored_pages_def loadFromStorage_eq)
  have v: "JSON_stringify (sliderValue_of zero_slider_page) = Serialized (JNum 0)"
    by (simp add: sliderValue_of_def zero_slider_page_def example_page_def parseInt_def
        isWhiteSpace_def isDigit_def digits_value_def number_val_def JSON_stringify_def lit_def)
  from submit_storage_writable [OF w, of "trim (replicate 100 97)" "sliderValue_of zero_slider_page"]
  obtain ls where st: "submit_storage (trim (replicate 100 97)) (sliderValue_of zero_slider_page)
        (storage zero_slider_page) = (Inr (), ls)"
    and it: "items ls (STORAGE_PREFIX @ lit ''final_slider'') =
        Some (JSON_stringify (sliderValue_of zero_slider_page))"
    by blast
  show ?thesis
    using it by (simp add: submit_accepted [OF t n] st accepted_def v)
qed

lemma final_zero_loaded:
  "getAllResponses (storage final_zero_page) = (Inr final_zero_responses, storage final_zero_page)"
  by (simp add: getAllResponses_def bind_def ret_def loadFromStorage_eq final_zero_page_def
      final_zero_responses_def)

lemma zero_label: "formatConscienceSlider 0 = lit ''100% Constructed''"
  by (simp add: formatConscienceSlider_def Number_toString_def digits10.simps lit_def)

lemma String_repeat_numeral:
  "String_repeat s (numeral k) = s @ String_repeat s (pred_numeral k)"
  "String_repeat s (Suc n) = s @ String_repeat s n"
  "String_repeat s 0 = []"
  by (simp_all add: String_repeat_def numeral_eq_Suc)

lemma rep50: "String_repeat (lit ''='') 50 = lit ''==================================================''"
  by (simp add: String_repeat_numeral lit_def)

lemma rep30: "String_repeat (lit ''-'') 30 = lit ''------------------------------''"
  by (simp add: String_repeat_numeral lit_def)

lemma final_zero_header:
  "export_header (lit ''11/3/2026'') final_zero_responses =
    Some (lit ''CONSCIENCE INQUIRY '' @ [0x2014] @ lit '' PERSONAL SYNTHESIS'' @ [0x0A]
     @ lit ''=================================================='' @ [0x0A, 0x0A]
     @ lit ''Date: 11/3/2026'' @ [0x0A, 0x0A]
     @ lit ''INITIAL POSITION'' @ [0x0A]
     @ lit ''------------------------------'' @ [0x0A]
     @ lit ''Slider: 70% Constructed'' @ [0x0A]
     @ lit ''Reasoning: Not recorded'' @ [0x0A, 0x0A]
     @ lit ''FINAL POSITION'' @ [0x0A]
     @ lit ''------------------------------'' @ [0x0A]
     @ lit ''Slider: Exactly balanced'' @ [0x0A]
     @ lit ''Synthesis: Not recorded'' @ [0x0A, 0x0A]
     @ lit ''JOURNEY REFLECTIONS'' @ [0x0A]
     @ lit ''------------------------------'' @ [0x0A])"
  by (simp add: export_header_def final_zero_responses_def js_or_def rep50 rep30
      formatConscienceSlider_def Number_toString_def digits10.simps)
     (simp add: lit_def)

lemma trim_Nil [simp]: "trim [] = []"
  by (simp add: trim_def)

lemma pillar_step_string:
  assumes "fst pl rs = JStr txt"
  shows "pillar_step rs text pl = Inr (text @ reflection_section (snd pl) (fst pl rs))"
  using assms by (cases "txt = []") (simp_all add: pillar_step_def reflection_section_def)

lemma forEach_pillars_strings:
  assumes "\<forall>pl \<in> set pls. \<exists>txt. fst pl rs = JStr txt"
  shows "forEach_pillars rs acc pls =
     Inr (acc @ concat (map (\<lambda>pl. reflection_section (snd pl) (fst pl rs)) pls))"
  using assms
proof (induction pls arbitrary: acc)
  case Nil
  then show ?case by simp
next
  case (Cons pl pls)
  then obtain str where t: "fst pl rs = JStr str" by auto
  from Cons have "forEach_pillars rs (acc @ reflection_section (snd pl) (fst pl rs)) pls =
     Inr ((acc @ reflection_section (snd pl) (fst pl rs))
          @ concat (map (\<lambda>pl. reflection_section (snd pl) (fst pl rs)) pls))"
    by simp
  then show ?case
    by (simp add: pillar_step_string [OF t])
qed

lemma final_zero_export:
  "export_text (lit ''11/3/2026'') final_zero_responses = Some (Inr final_zero_text)"
proof -
  have s: "\<forall>pl \<in> set pillars. \<exists>txt. fst pl final_zero_responses = JStr txt"
    by (simp add: pillars_def final_zero_responses_def)
  have b: "trim (lit ''Mirror neurons'') \<noteq> []"
    by (simp add: trim_def isWhiteSpace_def lit_def)
  have t: "trim (lit ''   '') = []"
    by (simp add: trim_def isWhiteSpace_def lit_def)
  have c: "concat (map (\<lambda>pl. reflection_section (snd pl) (fst pl final_zero_responses)) pillars) =
      [0x0A] @ lit ''The Social Brain:'' @ [0x0A] @ lit ''Mirror neurons'' @ [0x0A]"
    using b t by (simp add: pillars_def final_zero_responses_def reflection_section_def lit_def)
  show ?thesis
    unfolding export_text_def final_zero_header forEach_pillars_strings [OF s] c
    by (simp add: final_zero_text_def)
qed

lemma final_zero_present: "String_includes final_zero_text (lit ''Slider: Exactly balanced'')"
  unfolding String_includes_def final_zero_text_def
  by (simp add: lit_def sublist_code prefix_code)

lemma final_zero_absent: "\<not> String_includes final_zero_text (lit ''100% Constructed'')"
  unfolding String_includes_def final_zero_text_def
  by (simp add: lit_def sublist_code prefix_code)

text \<open>
  C5 at a stored final slider of 0: \<open>responses.finalSlider || 50\<close> takes 0 for a missing
  value, so the exported document shows \<open>Exactly balanced\<close> as the final position; the
  label of 0, \<open>100% Constructed\<close>, is nowhere in it.
\<close>

theorem exportSynthesis_final_zero:
  "items (storage final_zero_page) (STORAGE_PREFIX @ lit ''final_slider'') = Some (Serialized (JNum 0))
   \<and> map_option (\<lambda>r. (fst r, downloads (snd r)))
        (exportSynthesis (lit ''11/3/2026'') final_zero_page) =
       Some (Inr (), [(lit ''conscience-inquiry-synthesis.txt'', final_zero_text)])
   \<and> formatConscienceSlider 0 = lit ''100% Constructed''
   \<and> \<not> String_includes final_zero_text (formatConscienceSlider 0)
   \<and> String_includes final_zero_text (lit ''Slider: Exactly balanced'')"
proof -
  have "items (storage final_zero_page) (STORAGE_PREFIX @ lit ''final_slider'') =
      Some (Serialized (JNum 0))"
    by (simp add: final_zero_page_def)
  moreover have "map_option (\<lambda>r. (fst r, downloads (snd r)))
        (exportSynthesis (lit ''11/3/2026'') final_zero_page) =
       Some (Inr (), [(lit ''conscience-inquiry-synthesis.txt'', final_zero_text)])"
    by (simp add: exportSynthesis_def final_zero_loaded final_zero_export showConfirmation_def)
       (simp add: final_zero_page_def)
  ultimately show ?thesis
    using zero_label final_zero_absent final_zero_present by simp
qed


lemma includes_middle: "String_includes (a @ x @ b) x"
  by (simp add: String_includes_def)

lemma includes_append_left: "String_includes a x \<Longrightarrow> String_includes (a @ b) x"
  unfolding String_includes_def sublist_def by (metis append.assoc)

lemma includes_append_right: "String_includes b x \<Longrightarrow> String_includes (a @ b) x"
  unfolding String_includes_def sublist_def by (metis append.assoc)

lemma section_included:
  assumes "pl \<in> set pls" and "fst pl rs = JStr str" and "trim str \<noteq> []"
  shows "String_includes (concat (map (\<lambda>pl. reflection_section (snd pl) (fst pl rs)) pls))
           (snd pl @ lit '':'' @ [0x0A] @ str)"
proof -
  from assms(1) obtain as bs where pls: "pls = as @ pl # bs"
    by (auto dest: split_list)
  have sec: "reflection_section (snd pl) (fst pl rs) = [0x0A] @ (snd pl @ lit '':'' @ [0x0A] @ str) @ [0x0A]"
    using assms(2,3) by (simp add: reflection_section_def)
  have "String_includes (reflection_section (snd pl) (fst pl rs)) (snd pl @ lit '':'' @ [0x0A] @ str)"
    unfolding sec by (rule includes_middle)
  then show ?thesis
    unfolding pls by (simp add: includes_append_left includes_append_right)
qed

lemma export_header_numbers:
  assumes "initialSlider rs = JNum i" and "finalSlider rs = JNum f" and "f \<noteq> 0"
  shows "\<exists>pre mid post. export_header today rs =
           Some (pre @ (lit ''Slider: '' @ formatConscienceSlider i) @ mid
                 @ (lit ''Slider: '' @ formatConscienceSlider f) @ post)"
proof -
  define pre where "pre = lit ''CONSCIENCE INQUIRY '' @ [0x2014] @ lit '' PERSONAL SYNTHESIS'' @ [0x0A]
            @ String_repeat (lit ''='') 50 @ [0x0A, 0x0A]
            @ lit ''Date: '' @ today @ [0x0A, 0x0A]
            @ lit ''INITIAL POSITION'' @ [0x0A]
            @ String_repeat (lit ''-'') 30 @ [0x0A]"
  define mid where "mid = [0x0A] @ lit ''Reasoning: ''
            @ ToString (js_or (initialReason rs) (JStr (lit ''Not recorded''))) @ [0x0A, 0x0A]
            @ lit ''FINAL POSITION'' @ [0x0A]
            @ String_repeat (lit ''-'') 30 @ [0x0A]"
  define post where "post = [0x0A] @ lit ''Synthesis: ''
            @ ToString (js_or (synthesisStatement rs) (JStr (lit ''Not recorded'')))
            @ [0x0A, 0x0A]
            @ lit ''JOURNEY REFLECTIONS'' @ [0x0A]
            @ String_repeat (lit ''-'') 30 @ [0x0A]"
  have "export_header today rs =
           Some (pre @ (lit ''Slider: '' @ formatConscienceSlider i) @ mid
                 @ (lit ''Slider: '' @ formatConscienceSlider f) @ post)"
    using assms by (simp add: export_header_def js_or_def pre_def mid_def post_def)
  then show ?thesis by blast
qed

text \<open>
  Away from a final slider of 0 the document has both slider labels, and each topic whose
  reflection is not blank with its name and its text; nothing else follows the header.
\<close>

lemma export_text_contents:
  assumes "initialSlider rs = JNum i" and "finalSlider rs = JNum f" and "f \<noteq> 0"
    and "\<forall>pl \<in> set pillars. \<exists>str. fst pl rs = JStr str"
  shows "\<exists>hdr doc. export_header today rs = Some hdr
       \<and> export_text today rs = Some (Inr doc)
       \<and> doc = hdr @ concat (map (\<lambda>pl. reflection_section (snd pl) (fst pl rs)) pillars)
       \<and> String_includes doc (lit ''Slider: '' @ formatConscienceSlider i)
       \<and> String_includes doc (lit ''Slider: '' @ formatConscienceSlider f)
       \<and> (\<forall>pl \<in> set pillars. \<forall>str. fst pl rs = JStr str \<and> trim str \<noteq> [] \<longrightarrow>
            String_includes doc (snd pl @ lit '':'' @ [0x0A] @ str))"
proof -
  from export_header_numbers [OF assms(1,2,3), of today] obtain pre mid post where
    h: "export_header today rs =
           Some (pre @ (lit ''Slider: '' @ formatConscienceSlider i) @ mid
                 @ (lit ''Slider: '' @ formatConscienceSlider f) @ post)"
    by blast
  define hdr where "hdr = pre @ (lit ''Slider: '' @ formatConscienceSlider i) @ mid
                 @ (lit ''Slider: '' @ formatConscienceSlider f) @ post"
  define secs where "secs = concat (map (\<lambda>pl. reflection_section (snd pl) (fst pl rs)) pillars)"
  have d: "export_text today rs = Some (Inr (hdr @ secs))"
    by (simp add: export_text_def h forEach_pillars_strings [OF assms(4)] hdr_def secs_def)
  have i1: "String_includes hdr (lit ''Slider: '' @ formatConscienceSlider i)"
    unfolding hdr_def by (rule includes_middle)
  have i2: "String_includes hdr (lit ''Slider: '' @ formatConscienceSlider f)"
    using includes_middle [of "pre @ (lit ''Slider: '' @ formatConscienceSlider i) @ mid"
        "lit ''Slider: '' @ formatConscienceSlider f" post]
    by (simp add: hdr_def)
  have i3: "String_includes (hdr @ secs) (snd pl @ lit '':'' @ [0x0A] @ str)"
    if "pl \<in> set pillars" "fst pl rs = JStr str" "trim str \<noteq> []" for pl str
    unfolding secs_def by (rule includes_append_right, rule section_included [OF that])
  from h d i1 i2 i3 show ?thesis
    unfolding hdr_def [symmetric] secs_def [symmetric]
    by (auto intro: includes_append_left)
qed

end
